theory Spec2Isabelle
  imports Complex_Main
begin

section \<open>Shapes and the client's shape store (draw/Game.ts)\<close>

text \<open>
  JavaScript numbers are modelled as \<^typ>\<open>real\<close>: every coordinate is a finite number, and
  \<open>NaN\<close> and the infinities are outside the model. Optional fields are \<open>option\<close>s.
\<close>

type_synonym point = "real \<times> real"

record Stroke =
  strokeWidth :: "real option"
  strokeColor :: "string option"

datatype TextAlign = AlignLeft | AlignCenter | AlignRight

datatype VerticalAlign = AlignTop | AlignMiddle | AlignBottom

text \<open>
  \<open>TextBox\<close> of draw/tools.ts; its fields \<open>id, x, y, width, height, text\<close> carry the
  prefix \<open>box\<close>, and its stroke width and colour are \<open>boxStroke\<close>.
\<close>

record TextBox =
  boxId :: "string option"
  boxX :: real
  boxY :: real
  boxWidth :: real
  boxHeight :: real
  boxText :: string
  fontSize :: real
  fontFamily :: string
  lineHeight :: real
  textAlign :: TextAlign
  verticalAlign :: VerticalAlign
  boxStroke :: Stroke

text \<open>
  The tagged union \<open>Shape\<close>, one constructor per \<open>type\<close> tag, the fields in the order of
  the declaration: \<open>Rect x y width height\<close>, \<open>Circle centerX centerY radius\<close>,
  \<open>Pencil path strokeWidth strokeColor\<close>, \<open>Line\<close> and \<open>Arrow startX startY endX endY\<close>,
  \<open>Diamond centerX centerY width height stroke cornerRadius\<close>.
\<close>

datatype Shape =
    Rect real real real real Stroke
  | Circle real real real Stroke
  | Pencil "point list" real string
  | Line real real real real Stroke
  | Arrow real real real real Stroke
  | Diamond real real real real Stroke "real option"
  | Text TextBox

text \<open>
  \<open>StoredShape = { id, shape, tempId? }\<close>; the field \<open>id\<close> is \<open>idOf\<close> here. The type
  says every entry has a shape, but the shape of a stored entry comes from the wire
  unchecked (\<open>(parsed as any).shape as Shape\<close>), the relay broadcasts \<open>shape: null\<close> for
  a \<open>chat\<close> without one, and the drawing, selection and eraser loops all skip entries
  without a shape: a \<open>null\<close> or missing shape is \<open>None\<close>.
\<close>

record StoredShape =
  idOf :: string
  shape :: "Shape option"
  tempId :: "string option"

text \<open>The part of the \<open>Game\<close> object that the message handlers and the camera read and write.\<close>

record Game =
  existingShapes :: "StoredShape list"
  selectedShapeId :: "string option"
  cameraX :: real
  cameraY :: real
  zoom :: real

datatype IncomingMessage =
    Chat string "Shape option" "string option"
  | Delete string
  | Reorder "string list"
  | Update string "Shape option"
  | Unknown string

text \<open>\<open>Array.prototype.findIndex\<close>: the first index whose element satisfies the test; \<open>-1\<close> is \<open>None\<close>.\<close>

fun findIndex :: "('a \<Rightarrow> bool) \<Rightarrow> 'a list \<Rightarrow> nat option" where
  "findIndex P [] = None"
| "findIndex P (x # xs) =
     (if P x then Some 0 else (case findIndex P xs of None \<Rightarrow> None | Some i \<Rightarrow> Some (Suc i)))"

text \<open>\<open>if (tempId)\<close>: a string is truthy when it is present and not empty.\<close>

fun truthy :: "string option \<Rightarrow> bool" where
  "truthy None = False"
| "truthy (Some s) = (s \<noteq> [])"

definition durableEntry :: "string \<Rightarrow> Shape option \<Rightarrow> StoredShape" where
  "durableEntry i sh = \<lparr>idOf = i, shape = sh, tempId = None\<rparr>"

text \<open>
  The \<open>chat\<close> branch of \<open>socket.onmessage\<close> (Game.ts 198-224), on the store. With a truthy
  \<open>tempId\<close> the test \<open>s.tempId === tempId || s.id === tempId\<close> compares strings, so it is
  \<open>tempId s = tmp \<or> Some (idOf s) = tmp\<close>.
\<close>

definition onChat :: "string \<Rightarrow> Shape option \<Rightarrow> string option \<Rightarrow> StoredShape list \<Rightarrow> StoredShape list" where
  "onChat serverId serverShape tmp existing =
     (case (if truthy tmp
            then findIndex (\<lambda>s. tempId s = tmp \<or> Some (idOf s) = tmp) existing
            else None) of
        Some idx \<Rightarrow> existing[idx := durableEntry serverId serverShape]
      | None \<Rightarrow>
          if list_ex (\<lambda>s. idOf s = serverId) existing then existing
          else existing @ [durableEntry serverId serverShape])"

text \<open>The \<open>delete\<close> branch (Game.ts 226-237): filter the store, clear a selection of that id.\<close>

definition onDelete :: "string \<Rightarrow> Game \<Rightarrow> Game" where
  "onDelete deletedId g =
     g\<lparr>existingShapes := filter (\<lambda>s. idOf s \<noteq> deletedId) (existingShapes g),
       selectedShapeId := (if selectedShapeId g = Some deletedId then None else selectedShapeId g)\<rparr>"

text \<open>
  The \<open>reorder\<close> branch (Game.ts 239-255). \<open>idTo\<close> is the \<open>Map\<close> built from the store's
  \<open>[id, shape]\<close> pairs, a later pair overwriting an earlier one of the same key; the first
  loop pushes \<open>{ id, shape }\<close> for every id of \<open>order\<close> under which the map holds a shape
  (\<open>if (shape)\<close>: an unknown id and an id stored without a shape are both passed over); the
  second appends each stored entry whose id the list built so far does not hold.
\<close>

definition idTo :: "StoredShape list \<Rightarrow> (string \<rightharpoonup> Shape option)" where
  "idTo existing = fold (\<lambda>s m. m(idOf s \<mapsto> shape s)) existing Map.empty"

definition pushOrdered :: "(string \<rightharpoonup> Shape option) \<Rightarrow> string list \<Rightarrow> StoredShape list" where
  "pushOrdered m order =
     fold (\<lambda>i newList. case m i of
                          Some (Some sh) \<Rightarrow> newList @ [durableEntry i (Some sh)]
                        | _ \<Rightarrow> newList)
       order []"

definition appendMissing :: "StoredShape list \<Rightarrow> StoredShape list \<Rightarrow> StoredShape list" where
  "appendMissing existing newList =
     fold (\<lambda>s acc. if list_ex (\<lambda>x. idOf x = idOf s) acc then acc else acc @ [s]) existing newList"

definition applyRemoteReorder :: "string list \<Rightarrow> StoredShape list \<Rightarrow> StoredShape list" where
  "applyRemoteReorder order existing = appendMissing existing (pushOrdered (idTo existing) order)"

text \<open>The \<open>update\<close> branch (Game.ts 257-270): replace the shape in place, or push a new entry.\<close>

definition onUpdate :: "string \<Rightarrow> Shape option \<Rightarrow> StoredShape list \<Rightarrow> StoredShape list" where
  "onUpdate i sh existing =
     (case findIndex (\<lambda>s. idOf s = i) existing of
        Some idx \<Rightarrow> existing[idx := (existing ! idx)\<lparr>shape := sh\<rparr>]
      | None \<Rightarrow> existing @ [durableEntry i sh])"

definition onmessage :: "IncomingMessage \<Rightarrow> Game \<Rightarrow> Game" where
  "onmessage m g =
     (case m of
        Chat serverId serverShape tmp \<Rightarrow>
          g\<lparr>existingShapes := onChat serverId serverShape tmp (existingShapes g)\<rparr>
      | Delete deletedId \<Rightarrow> onDelete deletedId g
      | Reorder order \<Rightarrow> g\<lparr>existingShapes := applyRemoteReorder order (existingShapes g)\<rparr>
      | Update i sh \<Rightarrow> g\<lparr>existingShapes := onUpdate i sh (existingShapes g)\<rparr>
      | Unknown t \<Rightarrow> g)"

text \<open>\<open>bringToFront\<close> (Game.ts 118-126): splice the entry out and push it at the end.\<close>

definition bringToFront :: "string \<Rightarrow> Game \<Rightarrow> Game" where
  "bringToFront i g =
     (case findIndex (\<lambda>s. idOf s = i) (existingShapes g) of
        None \<Rightarrow> g
      | Some idx \<Rightarrow>
          g\<lparr>existingShapes :=
              take idx (existingShapes g) @ drop (Suc idx) (existingShapes g)
                @ [existingShapes g ! idx]\<rparr>)"

text \<open>\<open>sendReorder\<close>: the order sent is the store's ids.\<close>

definition sendReorder :: "Game \<Rightarrow> string list" where
  "sendReorder g = map idOf (existingShapes g)"

text \<open>
  The end of a creation gesture (\<open>mouseUpHandler\<close>, Game.ts 587-589, 690-691, 706-707):
  the id is \<open>pending-\<close> followed by the decimal digits of \<open>Date.now()\<close>, which is the
  parameter \<open>now\<close>, and the entry is pushed with that id as its \<open>tempId\<close> too.
\<close>

fun decimal :: "nat \<Rightarrow> string" where
  "decimal n =
     (if n < 10 then [''0123456789'' ! n]
      else decimal (n div 10) @ [''0123456789'' ! (n mod 10)])"

declare decimal.simps [simp del]

definition pendingId :: "nat \<Rightarrow> string" where
  "pendingId now = ''pending-'' @ decimal now"

definition addPending :: "nat \<Rightarrow> Shape \<Rightarrow> Game \<Rightarrow> Game" where
  "addPending now sh g =
     g\<lparr>existingShapes :=
         existingShapes g
           @ [\<lparr>idOf = pendingId now, shape = Some sh, tempId = Some (pendingId now)\<rparr>]\<rparr>"


section \<open>The camera (draw/Game.ts)\<close>

text \<open>
  \<open>setZoom\<close> (Game.ts 290-304) clamps the requested zoom and, when a screen point is given,
  moves the camera so that the world point under it stays put. The wheel listener (Game.ts
  979-990) asks for the current zoom times 1.12, or divided by 1.12.
\<close>

definition screenToWorld :: "Game \<Rightarrow> real \<Rightarrow> real \<Rightarrow> point" where
  "screenToWorld g sx sy = (sx / zoom g + cameraX g, sy / zoom g + cameraY g)"

definition setZoom :: "real \<Rightarrow> real option \<Rightarrow> real option \<Rightarrow> Game \<Rightarrow> Game" where
  "setZoom requested screenX screenY g =
     (let minZ = 0.1; maxZ = 8;
          newZoom = max minZ (min maxZ requested)
      in case (screenX, screenY) of
           (Some sx, Some sy) \<Rightarrow>
             (let worldBefore = screenToWorld g sx sy;
                  g1 = g\<lparr>zoom := newZoom\<rparr>;
                  worldAfter = screenToWorld g1 sx sy
              in g1\<lparr>cameraX := cameraX g1 + (fst worldBefore - fst worldAfter),
                    cameraY := cameraY g1 + (snd worldBefore - snd worldAfter)\<rparr>)
         | _ \<Rightarrow> g\<lparr>zoom := newZoom\<rparr>)"

definition onWheel :: "real \<Rightarrow> real \<Rightarrow> real \<Rightarrow> Game \<Rightarrow> Game" where
  "onWheel deltaY cx cy g =
     (let delta = (if deltaY < 0 then 1.12 else 1 / 1.12)
      in setZoom (zoom g * delta) (Some cx) (Some cy) g)"

section \<open>The resize tool (draw/resize.ts)\<close>

datatype HandleName = Hnw | Hn | Hne | He | Hse | Hs | Hsw | Hw

record BBox =
  bbX :: real
  bbY :: real
  bbW :: real
  bbH :: real

record ResizeTool =
  activeHandle :: "HandleName option"
  startPointer :: "point option"
  originalShape :: "Shape option"
  selectedId :: "string option"

text \<open>
  The bounding box of a pencil path scans the points with \<open>minx = Math.min(minx, p[0])\<close>
  from \<open>Infinity\<close> (and likewise for the other three bounds); on a path that is not empty
  the first point replaces the infinity, so the scan starts from the first point here.
\<close>

definition minCoord :: "(point \<Rightarrow> real) \<Rightarrow> point list \<Rightarrow> real" where
  "minCoord f path = fold (\<lambda>p m. min m (f p)) path (f (hd path))"

definition maxCoord :: "(point \<Rightarrow> real) \<Rightarrow> point list \<Rightarrow> real" where
  "maxCoord f path = fold (\<lambda>p m. max m (f p)) path (f (hd path))"

fun bbox :: "Shape \<Rightarrow> BBox" where
  "bbox (Rect x y width height st) = \<lparr>bbX = x, bbY = y, bbW = width, bbH = height\<rparr>"
| "bbox (Circle centerX centerY radius st) =
     (let r = \<bar>radius\<bar> in \<lparr>bbX = centerX - r, bbY = centerY - r, bbW = 2 * r, bbH = 2 * r\<rparr>)"
| "bbox (Diamond centerX centerY width height st cr) =
     \<lparr>bbX = centerX - width / 2, bbY = centerY - height / 2, bbW = width, bbH = height\<rparr>"
| "bbox (Text t) = \<lparr>bbX = boxX t, bbY = boxY t, bbW = boxWidth t, bbH = boxHeight t\<rparr>"
| "bbox (Line x1 y1 x2 y2 st) =
     \<lparr>bbX = min x1 x2, bbY = min y1 y2, bbW = \<bar>x2 - x1\<bar>, bbH = \<bar>y2 - y1\<bar>\<rparr>"
| "bbox (Arrow x1 y1 x2 y2 st) =
     \<lparr>bbX = min x1 x2, bbY = min y1 y2, bbW = \<bar>x2 - x1\<bar>, bbH = \<bar>y2 - y1\<bar>\<rparr>"
| "bbox (Pencil path sw sc) =
     (if path = [] then \<lparr>bbX = 0, bbY = 0, bbW = 0, bbH = 0\<rparr>
      else (let minx = minCoord fst path; miny = minCoord snd path;
                maxx = maxCoord fst path; maxy = maxCoord snd path
            in \<lparr>bbX = minx, bbY = miny, bbW = maxx - minx, bbH = maxy - miny\<rparr>))"

text \<open>The eight handle centres, in the order of the object's keys.\<close>

definition handlesFor :: "BBox \<Rightarrow> (HandleName \<times> point) list" where
  "handlesFor b =
     (let cx = bbX b + bbW b / 2; cy = bbY b + bbH b / 2
      in [(Hnw, (bbX b, bbY b)),
          (Hn, (cx, bbY b)),
          (Hne, (bbX b + bbW b, bbY b)),
          (He, (bbX b + bbW b, cy)),
          (Hse, (bbX b + bbW b, bbY b + bbH b)),
          (Hs, (cx, bbY b + bbH b)),
          (Hsw, (bbX b, bbY b + bbH b)),
          (Hw, (bbX b, cy))])"

text \<open>The first handle whose square of half-side \<open>half\<close> around its centre holds the point.\<close>

definition hitHandle :: "real \<Rightarrow> real \<Rightarrow> real \<Rightarrow> (HandleName \<times> point) list \<Rightarrow> HandleName option" where
  "hitHandle half x y handles =
     map_option fst (find (\<lambda>(k, h). \<bar>x - fst h\<bar> \<le> half \<and> \<bar>y - snd h\<bar> \<le> half) handles)"

definition hitTestHandles :: "real \<Rightarrow> real \<Rightarrow> Shape \<Rightarrow> HandleName option" where
  "hitTestHandles x y sh = hitHandle (12 / 2) x y (handlesFor (bbox sh))"

definition startResize :: "string \<Rightarrow> Shape \<Rightarrow> real \<Rightarrow> real \<Rightarrow> HandleName \<Rightarrow> ResizeTool" where
  "startResize i sh pointerX pointerY handle =
     \<lparr>activeHandle = Some handle, startPointer = Some (pointerX, pointerY),
      originalShape = Some sh, selectedId = Some i\<rparr>"

definition finishResize :: ResizeTool where
  "finishResize = \<lparr>activeHandle = None, startPointer = None, originalShape = None, selectedId = None\<rparr>"

definition isResizing :: "ResizeTool \<Rightarrow> bool" where
  "isResizing t = (activeHandle t \<noteq> None)"

text \<open>
  \<open>computeNewBBoxFromHandle\<close> (resize.ts 83-127): the handle moves its edges by the delta,
  then a box narrower or lower than \<open>minSize\<close> is widened on the side that moved (the left
  or top edge for the handles of that side, the right or bottom edge otherwise).
\<close>

definition computeNewBBoxFromHandle :: "BBox \<Rightarrow> HandleName \<Rightarrow> real \<Rightarrow> real \<Rightarrow> BBox" where
  "computeNewBBoxFromHandle origBBox handle dx dy =
     (let left0 = bbX origBBox; top0 = bbY origBBox;
          right0 = bbX origBBox + bbW origBBox; bottom0 = bbY origBBox + bbH origBBox;
          left1 = (if handle \<in> {Hnw, Hsw, Hw} then left0 + dx else left0);
          top1 = (if handle \<in> {Hnw, Hn, Hne} then top0 + dy else top0);
          right1 = (if handle \<in> {Hne, He, Hse} then right0 + dx else right0);
          bottom1 = (if handle \<in> {Hse, Hs, Hsw} then bottom0 + dy else bottom0);
          minSize = 6;
          left2 = (if right1 - left1 < minSize \<and> handle \<in> {Hnw, Hw, Hsw}
                   then right1 - minSize else left1);
          right2 = (if right1 - left1 < minSize \<and> handle \<notin> {Hnw, Hw, Hsw}
                    then left1 + minSize else right1);
          top2 = (if bottom1 - top1 < minSize \<and> handle \<in> {Hnw, Hn, Hne}
                  then bottom1 - minSize else top1);
          bottom2 = (if bottom1 - top1 < minSize \<and> handle \<notin> {Hnw, Hn, Hne}
                     then top1 + minSize else bottom1)
      in \<lparr>bbX = left2, bbY = top2, bbW = right2 - left2, bbH = bottom2 - top2\<rparr>)"

text \<open>JavaScript's \<open>a || b\<close> on numbers: \<open>b\<close> when \<open>a\<close> is \<open>0\<close>.\<close>

definition orElse :: "real \<Rightarrow> real \<Rightarrow> real" where
  "orElse a b = (if a = 0 then b else a)"

text \<open>
  A string is the list of the bytes of its UTF-8 encoding. The white space of the regular
  expression \<open>\s\<close>, which is also what \<open>Number\<close> trims from a string, is the code points
  U+0009 to U+000D, U+0020, U+00A0, U+1680, U+2000 to U+200A, U+2028, U+2029, U+202F,
  U+205F, U+3000 and U+FEFF: \<open>spaceCodes\<close> lists their encodings. \<open>spaceLen codes s\<close> is
  the number of bytes of the code that \<open>s\<close> starts with, \<open>0\<close> when it starts with none.
\<close>

definition spaceCodes :: "string list" where
  "spaceCodes =
     [[CHR 0x09], [CHR 0x0A], [CHR 0x0B], [CHR 0x0C], [CHR 0x0D], [CHR 0x20],
      [CHR 0xC2, CHR 0xA0],
      [CHR 0xE1, CHR 0x9A, CHR 0x80],
      [CHR 0xE2, CHR 0x80, CHR 0x80], [CHR 0xE2, CHR 0x80, CHR 0x81],
      [CHR 0xE2, CHR 0x80, CHR 0x82], [CHR 0xE2, CHR 0x80, CHR 0x83],
      [CHR 0xE2, CHR 0x80, CHR 0x84], [CHR 0xE2, CHR 0x80, CHR 0x85],
      [CHR 0xE2, CHR 0x80, CHR 0x86], [CHR 0xE2, CHR 0x80, CHR 0x87],
      [CHR 0xE2, CHR 0x80, CHR 0x88], [CHR 0xE2, CHR 0x80, CHR 0x89],
      [CHR 0xE2, CHR 0x80, CHR 0x8A],
      [CHR 0xE2, CHR 0x80, CHR 0xA8], [CHR 0xE2, CHR 0x80, CHR 0xA9],
      [CHR 0xE2, CHR 0x80, CHR 0xAF],
      [CHR 0xE2, CHR 0x81, CHR 0x9F],
      [CHR 0xE3, CHR 0x80, CHR 0x80],
      [CHR 0xEF, CHR 0xBB, CHR 0xBF]]"

definition spaceLen :: "string list \<Rightarrow> string \<Rightarrow> nat" where
  "spaceLen codes s =
     (case find (\<lambda>w. take (length w) s = w) codes of None \<Rightarrow> 0 | Some w \<Rightarrow> length w)"

text \<open>
  \<open>text.split(/\s+/)\<close>: the pieces between maximal runs of white space. \<open>skip\<close> counts
  the bytes still to pass of the white-space code point being read.
\<close>

fun splitRuns :: "bool \<Rightarrow> nat \<Rightarrow> string \<Rightarrow> string \<Rightarrow> string list" where
  "splitRuns inRun skip cur [] = [cur]"
| "splitRuns inRun skip cur (c # cs) =
     (if 0 < skip then splitRuns inRun (skip - 1) cur cs
      else (case spaceLen spaceCodes (c # cs) of
              0 \<Rightarrow> splitRuns False 0 (cur @ [c]) cs
            | Suc n \<Rightarrow> if inRun then splitRuns True n cur cs else cur # splitRuns True n [] cs))"

definition splitWs :: "string \<Rightarrow> string list" where
  "splitWs s = splitRuns False 0 [] s"

text \<open>
  Dropping the white space a string starts with; on the reversed string, with the reversed
  codes, the white space it ends with.
\<close>

fun dropSpaces :: "string list \<Rightarrow> nat \<Rightarrow> string \<Rightarrow> string" where
  "dropSpaces codes skip [] = []"
| "dropSpaces codes skip (c # cs) =
     (if 0 < skip then dropSpaces codes (skip - 1) cs
      else (case spaceLen codes (c # cs) of
              0 \<Rightarrow> c # cs
            | Suc n \<Rightarrow> dropSpaces codes n cs))"

definition trimSpaces :: "string \<Rightarrow> string" where
  "trimSpaces s = rev (dropSpaces (map rev spaceCodes) 0 (rev (dropSpaces spaceCodes 0 s)))"

definition wrapLines :: "(string \<Rightarrow> real) \<Rightarrow> real \<Rightarrow> string list \<Rightarrow> string list" where
  "wrapLines widthOf width words =
     (let (lines, currentLine) =
            fold (\<lambda>word (lines, currentLine).
                    let testLine = (if currentLine \<noteq> [] then currentLine @ '' '' @ word else word)
                    in if widthOf testLine > width \<and> currentLine \<noteq> []
                       then (lines @ [currentLine], word)
                       else (lines, testLine))
              words ([], [])
      in if currentLine \<noteq> [] then lines @ [currentLine] else lines)"

text \<open>
  \<open>applyResize\<close> (resize.ts 130-259) returns \<open>null\<close> when no gesture is active, and the
  resized copy of the gesture-start shape otherwise. A text box of height 0 resized by a
  vertical handle divides by that height: the new font size is infinite when the font
  size is positive (the result \<open>NonFinite\<close>, outside the model of numbers), and
  \<open>Math.max(8, -Infinity) = 8\<close> when it is negative. \<open>measureText fontSize fontFamily t\<close>
  stands for the width that the canvas measures for \<open>t\<close> in that font.
\<close>

datatype ResizeResult = Null | NonFinite | Resized Shape

definition resizeText ::
  "(real \<Rightarrow> string \<Rightarrow> string \<Rightarrow> real) \<Rightarrow> TextBox \<Rightarrow> BBox \<Rightarrow> HandleName \<Rightarrow> BBox \<Rightarrow> ResizeResult" where
  "resizeText measureText t origBBox handle newBBox =
     (let s1 = t\<lparr>boxX := bbX newBBox, boxY := bbY newBBox, boxWidth := max 30 (bbW newBBox)\<rparr>;
          vertical = (handle \<in> {Hn, Hs, Hnw, Hne, Hsw, Hse})
      in if vertical \<and> bbH origBBox = 0 \<and> 0 < orElse (fontSize s1) 16 then NonFinite
         else
          (let s2 = (if vertical
                     then s1\<lparr>fontSize :=
                            (if bbH origBBox = 0 then 8
                             else max 8 (orElse (fontSize s1) 16 * (bbH newBBox / bbH origBBox)))\<rparr>
                     else s1)
           in if boxText s2 \<noteq> []
              then (let lines = wrapLines (measureText (fontSize s2) (fontFamily s2)) (boxWidth s2)
                                  (splitWs (boxText s2));
                        lineHeightPx = orElse (fontSize s2) 12 * orElse (lineHeight s2) 1.2
                    in Resized (Text (s2\<lparr>boxHeight := real (length lines) * lineHeightPx\<rparr>)))
              else Resized (Text (s2\<lparr>boxHeight := max 20 (bbH newBBox)\<rparr>))))"

definition applyResize ::
  "(real \<Rightarrow> string \<Rightarrow> string \<Rightarrow> real) \<Rightarrow> ResizeTool \<Rightarrow> real \<Rightarrow> real \<Rightarrow> ResizeResult" where
  "applyResize measureText tool pointerX pointerY =
     (case (activeHandle tool, startPointer tool, originalShape tool) of
        (Some handle, Some start, Some orig) \<Rightarrow>
          (let dx = pointerX - fst start; dy = pointerY - snd start;
               origBBox = bbox orig;
               newBBox = computeNewBBoxFromHandle origBBox handle dx dy
           in case orig of
                Rect x y width height st \<Rightarrow>
                  Resized (Rect (bbX newBBox) (bbY newBBox) (max 6 (bbW newBBox)) (max 6 (bbH newBBox)) st)
              | Circle centerX centerY radius st \<Rightarrow>
                  (let size = max (max (bbW newBBox) (bbH newBBox)) 6;
                       cx = bbX newBBox + bbW newBBox / 2;
                       cy = bbY newBBox + bbH newBBox / 2
                   in Resized (Circle cx cy (max 3 (size / 2)) st))
              | Diamond centerX centerY width height st cr \<Rightarrow>
                  Resized (Diamond (bbX newBBox + bbW newBBox / 2) (bbY newBBox + bbH newBBox / 2)
                             (max 6 (bbW newBBox)) (max 6 (bbH newBBox)) st cr)
              | Line startX startY endX endY st \<Rightarrow>
                  (if handle \<in> {Hnw, Hw, Hsw} then Resized (Line (startX + dx) (startY + dy) endX endY st)
                   else if handle \<in> {Hne, He, Hse} then Resized (Line startX startY (endX + dx) (endY + dy) st)
                   else if \<bar>startY - bbY origBBox\<bar> < \<bar>endY - bbY origBBox\<bar>
                        then Resized (Line (startX + dx) (startY + dy) endX endY st)
                        else Resized (Line startX startY (endX + dx) (endY + dy) st))
              | Arrow startX startY endX endY st \<Rightarrow>
                  (if handle \<in> {Hnw, Hw, Hsw} then Resized (Arrow (startX + dx) (startY + dy) endX endY st)
                   else if handle \<in> {Hne, He, Hse} then Resized (Arrow startX startY (endX + dx) (endY + dy) st)
                   else if \<bar>startY - bbY origBBox\<bar> < \<bar>endY - bbY origBBox\<bar>
                        then Resized (Arrow (startX + dx) (startY + dy) endX endY st)
                        else Resized (Arrow startX startY (endX + dx) (endY + dy) st))
              | Text t \<Rightarrow> resizeText measureText t origBBox handle newBBox
              | Pencil path sw sc \<Rightarrow>
                  (let origW = orElse (bbW origBBox) 1; origH = orElse (bbH origBBox) 1;
                       scaleX = bbW newBBox / origW; scaleY = bbH newBBox / origH;
                       cx = bbX origBBox + bbW origBBox / 2; cy = bbY origBBox + bbH origBBox / 2;
                       newCx = bbX newBBox + bbW newBBox / 2; newCy = bbY newBBox + bbH newBBox / 2
                   in Resized (Pencil (map (\<lambda>p. ((fst p - cx) * scaleX + newCx, (snd p - cy) * scaleY + newCy)) path)
                                 sw sc)))
      | _ \<Rightarrow> Null)"

section \<open>The selection tool (draw/select.ts)\<close>

text \<open>\<open>Math.hypot\<close> of two numbers.\<close>

definition hypot :: "real \<Rightarrow> real \<Rightarrow> real" where
  "hypot dx dy = sqrt (dx * dx + dy * dy)"

text \<open>\<open>pointInShape\<close> (select.ts 17-67); \<open>findAt\<close> calls it with the default padding 6.\<close>

fun pointInShape :: "real \<Rightarrow> real \<Rightarrow> Shape \<Rightarrow> real \<Rightarrow> bool" where
  "pointInShape x y (Rect sx sy width height st) padding =
     (x \<ge> sx - padding \<and> x \<le> sx + width + padding \<and> y \<ge> sy - padding \<and> y \<le> sy + height + padding)"
| "pointInShape x y (Circle centerX centerY radius st) padding =
     (hypot (x - centerX) (y - centerY) \<le> \<bar>radius\<bar> + padding)"
| "pointInShape x y (Diamond centerX centerY width height st cr) padding =
     (let cx = centerX; cy = centerY; w = width / 2 + padding; h = height / 2 + padding
      in x \<ge> cx - w \<and> x \<le> cx + w \<and> y \<ge> cy - h \<and> y \<le> cy + h)"
| "pointInShape x y (Line x1 y1 x2 y2 st) padding =
     (let A = x - x1; B = y - y1; C = x2 - x1; D = y2 - y1;
          dot = A * C + B * D; len2 = C * C + D * D;
          param = (if len2 \<noteq> 0 then dot / len2 else - 1);
          xx = (if param < 0 then x1 else if param > 1 then x2 else x1 + param * C);
          yy = (if param < 0 then y1 else if param > 1 then y2 else y1 + param * D)
      in hypot (x - xx) (y - yy) \<le> padding + (case strokeWidth st of None \<Rightarrow> 4 | Some w \<Rightarrow> w))"
| "pointInShape x y (Arrow x1 y1 x2 y2 st) padding =
     (let A = x - x1; B = y - y1; C = x2 - x1; D = y2 - y1;
          dot = A * C + B * D; len2 = C * C + D * D;
          param = (if len2 \<noteq> 0 then dot / len2 else - 1);
          xx = (if param < 0 then x1 else if param > 1 then x2 else x1 + param * C);
          yy = (if param < 0 then y1 else if param > 1 then y2 else y1 + param * D)
      in hypot (x - xx) (y - yy) \<le> padding + (case strokeWidth st of None \<Rightarrow> 4 | Some w \<Rightarrow> w))"
| "pointInShape x y (Pencil path sw sc) padding =
     (if path = [] then False
      else (let minx = minCoord fst path; maxx = maxCoord fst path;
                miny = minCoord snd path; maxy = maxCoord snd path
            in x \<ge> minx - padding \<and> x \<le> maxx + padding \<and> y \<ge> miny - padding \<and> y \<le> maxy + padding))"
| "pointInShape x y (Text t) padding =
     (x \<ge> boxX t - padding \<and> x \<le> boxX t + boxWidth t + padding
      \<and> y \<ge> boxY t - padding \<and> y \<le> boxY t + boxHeight t + padding)"

fun bboxOf :: "Shape \<Rightarrow> BBox" where
  "bboxOf (Rect x y width height st) = \<lparr>bbX = x, bbY = y, bbW = width, bbH = height\<rparr>"
| "bboxOf (Circle centerX centerY radius st) =
     (let r = \<bar>radius\<bar> in \<lparr>bbX = centerX - r, bbY = centerY - r, bbW = 2 * r, bbH = 2 * r\<rparr>)"
| "bboxOf (Diamond centerX centerY width height st cr) =
     \<lparr>bbX = centerX - width / 2, bbY = centerY - height / 2, bbW = width, bbH = height\<rparr>"
| "bboxOf (Line x1 y1 x2 y2 st) =
     \<lparr>bbX = min x1 x2, bbY = min y1 y2, bbW = \<bar>x2 - x1\<bar>, bbH = \<bar>y2 - y1\<bar>\<rparr>"
| "bboxOf (Arrow x1 y1 x2 y2 st) =
     \<lparr>bbX = min x1 x2, bbY = min y1 y2, bbW = \<bar>x2 - x1\<bar>, bbH = \<bar>y2 - y1\<bar>\<rparr>"
| "bboxOf (Pencil path sw sc) =
     (if path = [] then \<lparr>bbX = 0, bbY = 0, bbW = 0, bbH = 0\<rparr>
      else (let minx = minCoord fst path; miny = minCoord snd path;
                maxx = maxCoord fst path; maxy = maxCoord snd path
            in \<lparr>bbX = minx, bbY = miny, bbW = maxx - minx, bbH = maxy - miny\<rparr>))"
| "bboxOf (Text t) = \<lparr>bbX = boxX t, bbY = boxY t, bbW = boxWidth t, bbH = boxHeight t\<rparr>"

text \<open>
  \<open>findAt\<close> (select.ts 138-167) scans the stored shapes from the last (topmost) to the
  first, passing over an entry without a shape; for each it tries the eight handles, then
  the interior. The result is the id it returns together with the part it reports to
  \<open>onSelect\<close>.
\<close>

datatype SelectPart = Inside | Handle HandleName | NoPart

fun findAtFrom :: "real \<Rightarrow> real \<Rightarrow> StoredShape list \<Rightarrow> string option \<times> SelectPart" where
  "findAtFrom x y [] = (None, NoPart)"
| "findAtFrom x y (s # below) =
     (case shape s of
        None \<Rightarrow> findAtFrom x y below
      | Some sh \<Rightarrow>
          (case hitHandle (10 / 2) x y (handlesFor (bboxOf sh)) of
             Some k \<Rightarrow> (Some (idOf s), Handle k)
           | None \<Rightarrow> if pointInShape x y sh 6 then (Some (idOf s), Inside)
                     else findAtFrom x y below))"

definition findAt :: "real \<Rightarrow> real \<Rightarrow> StoredShape list \<Rightarrow> string option \<times> SelectPart" where
  "findAt x y stored = findAtFrom x y (rev stored)"

text \<open>
  From the words of the specification, for comparison with \<open>pointInShape\<close>: the taxicab-normalized
  distance \<open>|dx| / half-width + |dy| / half-height\<close> of a point from a diamond's centre, the
  padding added to both half-extents, is at most 1.
\<close>

definition taxicabInside :: "real \<Rightarrow> real \<Rightarrow> real \<Rightarrow> real \<Rightarrow> real \<Rightarrow> real \<Rightarrow> real \<Rightarrow> bool" where
  "taxicabInside x y centerX centerY width height padding =
     (\<bar>x - centerX\<bar> / (width / 2 + padding) + \<bar>y - centerY\<bar> / (height / 2 + padding) \<le> 1)"

section \<open>The eraser (draw/eraser.ts)\<close>

text \<open>\<open>isPointInShape\<close> and \<open>findShapeAt\<close>; \<open>eraserSize\<close> is the eraser's \<open>size\<close> field.\<close>

definition pointToLineDistance :: "point \<Rightarrow> point \<Rightarrow> point \<Rightarrow> real" where
  "pointToLineDistance p a b =
     (let A = fst p - fst a; B = snd p - snd a; C = fst b - fst a; D = snd b - snd a;
          dot = A * C + B * D; lenSq = C * C + D * D;
          param = (if lenSq \<noteq> 0 then dot / lenSq else - 1);
          xx = (if param < 0 then fst a else if param > 1 then fst b else fst a + param * C);
          yy = (if param < 0 then snd a else if param > 1 then snd b else snd a + param * D);
          dx = fst p - xx; dy = snd p - yy
      in sqrt (dx * dx + dy * dy))"

fun isPointInShape :: "real \<Rightarrow> real \<Rightarrow> real \<Rightarrow> Shape \<Rightarrow> bool" where
  "isPointInShape eraserSize x y (Rect sx sy width height st) =
     (x \<ge> sx \<and> x \<le> sx + width \<and> y \<ge> sy \<and> y \<le> sy + height)"
| "isPointInShape eraserSize x y (Circle centerX centerY radius st) =
     (let dx = x - centerX; dy = y - centerY in sqrt (dx * dx + dy * dy) \<le> \<bar>radius\<bar>)"
| "isPointInShape eraserSize x y (Pencil path sw sc) =
     list_ex (\<lambda>p. hypot (fst p - x) (snd p - y) \<le> orElse sw 2 + eraserSize) path"
| "isPointInShape eraserSize x y (Line x1 y1 x2 y2 st) =
     (pointToLineDistance (x, y) (x1, y1) (x2, y2) \<le> eraserSize + 3)"
| "isPointInShape eraserSize x y (Arrow x1 y1 x2 y2 st) =
     (pointToLineDistance (x, y) (x1, y1) (x2, y2) \<le> eraserSize + 3)"
| "isPointInShape eraserSize x y (Diamond centerX centerY width height st cr) =
     (let dx = \<bar>x - centerX\<bar>; dy = \<bar>y - centerY\<bar> in dx / (width / 2) + dy / (height / 2) \<le> 1)"
| "isPointInShape eraserSize x y (Text t) =
     (x \<ge> boxX t \<and> x \<le> boxX t + boxWidth t \<and> y \<ge> boxY t \<and> y \<le> boxY t + boxHeight t)"

definition findShapeAt :: "real \<Rightarrow> real \<Rightarrow> real \<Rightarrow> StoredShape list \<Rightarrow> string option" where
  "findShapeAt eraserSize x y storedShapes =
     map_option idOf
       (find (\<lambda>s. case shape s of None \<Rightarrow> False | Some sh \<Rightarrow> isPointInShape eraserSize x y sh)
          (rev storedShapes))"

section \<open>Freehand strokes (draw/pencil.ts)\<close>

definition pointDistance :: "point \<Rightarrow> point \<Rightarrow> real" where
  "pointDistance a b = hypot (fst a - fst b) (snd a - snd b)"

definition lineDistance :: "point \<Rightarrow> point \<Rightarrow> point \<Rightarrow> real" where
  "lineDistance p a b =
     (let num = \<bar>(fst b - fst a) * (snd a - snd p) - (fst a - fst p) * (snd b - snd a)\<bar>;
          den = hypot (fst b - fst a) (snd b - snd a)
      in if den = 0 then pointDistance p a else num / den)"

text \<open>
  The scan of \<open>simplifyRDP\<close> over the interior indices: the largest distance from the chord
  found so far and the index where it was found, \<open>(0, 0)\<close> at the start.
\<close>

definition farthest :: "point list \<Rightarrow> real \<times> nat" where
  "farthest points =
     fold (\<lambda>i (dmax, index).
             let d = lineDistance (points ! i) (points ! 0) (points ! (length points - 1))
             in if d > dmax then (d, i) else (dmax, index))
       [1 ..< length points - 1] (0, 0)"

text \<open>
  \<open>simplifyRDP\<close> (pencil.ts, the function before the class). With a negative tolerance
  and points on one line the index stays 0 and the second recursive call is on the whole
  sequence again, so the recursion need not end: the function is partial, \<open>None\<close> standing
  for a call that does not return.
\<close>

partial_function (option) simplifyRDP :: "point list \<Rightarrow> real \<Rightarrow> point list option" where
  "simplifyRDP points epsilon =
     (if length points < 3 then Some points
      else if fst (farthest points) > epsilon
           then Option.bind (simplifyRDP (take (snd (farthest points) + 1) points) epsilon) (\<lambda>rec1.
                Option.bind (simplifyRDP (drop (snd (farthest points)) points) epsilon) (\<lambda>rec2.
                Some (butlast rec1 @ rec2)))
           else Some [points ! 0, points ! (length points - 1)])"

record Pencil =
  points :: "point list"
  smoothed :: "point list"
  pencilWidth :: real
  pencilColor :: string

definition updateSmoothed :: "Pencil \<Rightarrow> Pencil option" where
  "updateSmoothed pen =
     (if length (points pen) < 2 then Some (pen\<lparr>smoothed := points pen\<rparr>)
      else map_option (\<lambda>r. pen\<lparr>smoothed := r\<rparr>) (simplifyRDP (points pen) 1.5))"

definition addPoint :: "real \<Rightarrow> real \<Rightarrow> Pencil \<Rightarrow> Pencil option" where
  "addPoint x y pen =
     (let p = (x, y)
      in if points pen = [] \<or> pointDistance (last (points pen)) p > 0.5
         then updateSmoothed (pen\<lparr>points := points pen @ [p]\<rparr>)
         else Some pen)"

definition getPath :: "Pencil \<Rightarrow> point list" where
  "getPath pen = map (\<lambda>p. (fst p, snd p)) (smoothed pen)"

section \<open>The relay (apps/ws-backend/src/index.ts and its other version)\<close>

text \<open>
  The relay's message handler exists twice in the sources: as the \<open>switch\<close> of
  apps/ws-backend/src/index.ts (\<open>relayMessage\<close>) and as a chain of \<open>if\<close>s in a second
  file without the heartbeat (\<open>relayMessageAlt\<close>). A handler takes the outcome of its one
  persistence call, the socket and the user id of its connection, the parsed message and
  the registered users; it returns the users and, in order, the persistence calls it
  issues and the messages it sends. Console output is left out, and so is the time a
  persistence call takes: the users at the broadcast are those at the arrival.

  Of a parsed message the model keeps \<open>type\<close> (when it is a string), \<open>String(roomId)\<close>,
  \<open>id\<close> as a JavaScript value, \<open>tempId\<close>, and the \<open>shape\<close>, \<open>message\<close> and \<open>order\<close>
  members, absent or falsy as \<open>None\<close>. An id that is an array or an object is outside
  the model.
\<close>

datatype JsValue = JUndefined | JNull | JBool bool | JNumber real | JString string

text \<open>
  \<open>Number(s)\<close> of a string is \<open>NaN\<close> unless the string, white space trimmed, is empty or a
  numeric literal: a signed decimal with optional fraction and exponent, \<open>Infinity\<close>, or an
  unsigned binary, octal or hexadecimal integer.
\<close>

definition isDigit :: "char \<Rightarrow> bool" where
  "isDigit c = (c \<in> set ''0123456789'')"

definition isHexDigit :: "char \<Rightarrow> bool" where
  "isHexDigit c = (c \<in> set ''0123456789abcdefABCDEF'')"

definition digits1 :: "string \<Rightarrow> bool" where
  "digits1 s = (s \<noteq> [] \<and> list_all isDigit s)"

fun signedInteger :: "string \<Rightarrow> bool" where
  "signedInteger [] = False"
| "signedInteger (c # cs) = (if c = CHR ''+'' \<or> c = CHR ''-'' then digits1 cs else digits1 (c # cs))"

fun exponentPart :: "string \<Rightarrow> bool" where
  "exponentPart [] = True"
| "exponentPart (c # cs) = ((c = CHR ''e'' \<or> c = CHR ''E'') \<and> signedInteger cs)"

definition unsignedDecimal :: "string \<Rightarrow> bool" where
  "unsignedDecimal s =
     (s = ''Infinity'' \<or>
      (let ip = takeWhile isDigit s; r = dropWhile isDigit s
       in case r of
            [] \<Rightarrow> ip \<noteq> []
          | c # r1 \<Rightarrow>
              if c = CHR ''.''
              then (ip \<noteq> [] \<or> takeWhile isDigit r1 \<noteq> []) \<and> exponentPart (dropWhile isDigit r1)
              else ip \<noteq> [] \<and> exponentPart r))"

fun strDecimal :: "string \<Rightarrow> bool" where
  "strDecimal [] = False"
| "strDecimal (c # cs) =
     (if c = CHR ''+'' \<or> c = CHR ''-'' then unsignedDecimal cs else unsignedDecimal (c # cs))"

fun nonDecimal :: "string \<Rightarrow> bool" where
  "nonDecimal (z # p # ds) =
     (z = CHR ''0'' \<and> ds \<noteq> [] \<and>
      ((p \<in> set ''xX'' \<and> list_all isHexDigit ds) \<or>
       (p \<in> set ''oO'' \<and> list_all (\<lambda>c. c \<in> set ''01234567'') ds) \<or>
       (p \<in> set ''bB'' \<and> list_all (\<lambda>c. c \<in> set ''01'') ds)))"
| "nonDecimal s = False"

definition numericString :: "string \<Rightarrow> bool" where
  "numericString s =
     (let t = trimSpaces s
      in t = [] \<or> strDecimal t \<or> nonDecimal t)"

text \<open>\<open>Number.isNaN(Number(v))\<close>, and \<open>typeof v === "number"\<close>.\<close>

fun numberIsNaN :: "JsValue \<Rightarrow> bool" where
  "numberIsNaN JUndefined = True"
| "numberIsNaN JNull = False"
| "numberIsNaN (JBool b) = False"
| "numberIsNaN (JNumber n) = False"
| "numberIsNaN (JString s) = (\<not> numericString s)"

fun isNumberType :: "JsValue \<Rightarrow> bool" where
  "isNumberType (JNumber n) = True"
| "isNumberType v = False"

record User =
  ws :: nat
  rooms :: "string list"
  userId :: string

record 'j ClientMessage =
  msgType :: "string option"
  roomId :: string
  msgId :: JsValue
  msgTempId :: "string option"
  msgShape :: "'j option"
  msgText :: "'j option"
  msgOrder :: "string list option"

datatype 'j Payload =
    ChatPayload nat "string option" "'j option" string
  | UpdatePayload JsValue "'j option" string
  | DeletePayload JsValue string

datatype 'j Effect =
    Send nat "'j Payload"
  | DbCreate string "'j option" "'j option" string
  | DbUpdate JsValue "'j option"
  | DbDelete JsValue

datatype DbResult = Saved nat | Failed

definition broadcastToRoom :: "User list \<Rightarrow> string \<Rightarrow> 'j Payload \<Rightarrow> 'j Effect list" where
  "broadcastToRoom users room payload =
     map (\<lambda>u. Send (ws u) payload) (filter (\<lambda>u. room \<in> set (rooms u)) users)"

definition joinRoom :: "nat \<Rightarrow> string \<Rightarrow> User list \<Rightarrow> User list" where
  "joinRoom w room users = map (\<lambda>u. if ws u = w then u\<lparr>rooms := rooms u @ [room]\<rparr> else u) users"

definition leaveRoom :: "nat \<Rightarrow> string \<Rightarrow> User list \<Rightarrow> User list" where
  "leaveRoom w room users =
     map (\<lambda>u. if ws u = w then u\<lparr>rooms := filter (\<lambda>r. r \<noteq> room) (rooms u)\<rparr> else u) users"

definition relayMessage :: "DbResult \<Rightarrow> nat \<Rightarrow> string \<Rightarrow> 'j ClientMessage \<Rightarrow> User list \<Rightarrow> User list \<times> 'j Effect list" where
  "relayMessage db w uid m users =
     (case msgType m of
        None \<Rightarrow> (users, [])
      | Some t \<Rightarrow>
          if t = [] then (users, [])
          else if t = ''join_room'' then (joinRoom w (roomId m) users, [])
          else if t = ''leave_room'' then (leaveRoom w (roomId m) users, [])
          else if t = ''chat'' then
            (users,
             DbCreate (roomId m) (msgShape m) (if msgShape m = None then msgText m else None) uid
               # (case db of
                    Saved n \<Rightarrow>
                      broadcastToRoom users (roomId m)
                        (ChatPayload n (msgTempId m) (msgShape m) (roomId m))
                  | Failed \<Rightarrow> []))
          else if t = ''update'' then
            (users,
             DbUpdate (msgId m) (msgShape m)
               # (case db of
                    Saved n \<Rightarrow>
                      broadcastToRoom users (roomId m) (UpdatePayload (msgId m) (msgShape m) (roomId m))
                  | Failed \<Rightarrow> []))
          else if t = ''delete'' then
            (if numberIsNaN (msgId m) then (users, [])
             else (users,
                   DbDelete (msgId m)
                     # broadcastToRoom users (roomId m) (DeletePayload (msgId m) (roomId m))))
          else (users, []))"

text \<open>
  The second version parses JSON text in two places, which the model takes as parameters.
  In the \<open>chat\<close> branch the shape it broadcasts is read back from the text it stored:
  the shape of the message when it has one, and otherwise \<open>textShape t\<close>, the truthy
  \<open>shape\<close> member of what the stored text of the \<open>message\<close> member \<open>t\<close> parses to (\<open>None\<close>
  when it does not parse or has none). In the \<open>update\<close> branch a shape given as a string
  is replaced by \<open>parseShape v\<close>, what the string parses to (a value that is not a string,
  or does not parse, is kept; a falsy result is \<open>None\<close>).
\<close>

definition relayMessageAlt ::
  "('j \<Rightarrow> 'j option) \<Rightarrow> ('j \<Rightarrow> 'j option) \<Rightarrow> DbResult \<Rightarrow> nat \<Rightarrow> string \<Rightarrow> 'j ClientMessage
     \<Rightarrow> User list \<Rightarrow> User list \<times> 'j Effect list" where
  "relayMessageAlt textShape parseShape db w uid m users =
     (case msgType m of
        None \<Rightarrow> (users, [])
      | Some t \<Rightarrow>
          if t = [] then (users, [])
          else if t = ''join_room'' then (joinRoom w (roomId m) users, [])
          else if t = ''leave_room'' then (leaveRoom w (roomId m) users, [])
          else if t = ''chat'' then
            (if msgShape m = None \<and> msgText m = None then (users, [])
             else (users,
                   DbCreate (roomId m) (msgShape m) (if msgShape m = None then msgText m else None) uid
                     # (case db of
                          Saved n \<Rightarrow>
                            broadcastToRoom users (roomId m)
                              (ChatPayload n (if truthy (msgTempId m) then msgTempId m else None)
                                 (case msgShape m of
                                    Some sh \<Rightarrow> Some sh
                                  | None \<Rightarrow> Option.bind (msgText m) textShape)
                                 (roomId m))
                        | Failed \<Rightarrow> [])))
          else if t = ''update'' then
            (let shape1 = Option.bind (msgShape m) parseShape
             in (users,
                 DbUpdate (msgId m) shape1
                   # (case db of
                        Saved n \<Rightarrow>
                          broadcastToRoom users (roomId m) (UpdatePayload (msgId m) shape1 (roomId m))
                      | Failed \<Rightarrow> [])))
          else if t = ''delete'' then
            (users,
             (if \<not> isNumberType (msgId m) \<and> numberIsNaN (msgId m) then [] else [DbDelete (msgId m)])
               @ broadcastToRoom users (roomId m) (DeletePayload (msgId m) (roomId m)))
          else (users, []))"

text \<open>The stroke of the example shapes below: no width and no colour given.\<close>

abbreviation plain :: Stroke where
  "plain \<equiv> \<lparr>strokeWidth = None, strokeColor = None\<rparr>"

section \<open>Properties of the shape store\<close>

subsection \<open>Searching a list\<close>

lemma findIndex_None: "findIndex P xs = None \<longleftrightarrow> (\<forall>x\<in>set xs. \<not> P x)"
  by (induction xs) (auto split: option.splits)

lemma findIndex_Some:
  "findIndex P xs = Some i \<Longrightarrow> i < length xs \<and> P (xs ! i) \<and> (\<forall>j<i. \<not> P (xs ! j))"
proof (induction xs arbitrary: i)
  case Nil
  then show ?case by simp
next
  case (Cons x xs)
  show ?case
  proof (cases "P x")
    case True
    with Cons.prems show ?thesis by simp
  next
    case False
    with Cons.prems obtain k where k: "findIndex P xs = Some k" "i = Suc k"
      by (auto split: option.splits)
    from Cons.IH[OF k(1)] False k(2) show ?thesis
      by (auto simp: nth_Cons split: nat.splits)
  qed
qed

lemma findIndex_first:
  "i < length xs \<Longrightarrow> P (xs ! i) \<Longrightarrow> (\<forall>j<i. \<not> P (xs ! j)) \<Longrightarrow> findIndex P xs = Some i"
proof (induction xs arbitrary: i)
  case Nil
  then show ?case by simp
next
  case (Cons x xs)
  show ?case
  proof (cases i)
    case 0
    with Cons.prems show ?thesis by simp
  next
    case (Suc k)
    with Cons.prems have "\<not> P x" by auto
    moreover have "findIndex P xs = Some k"
      using Cons.prems Suc by (intro Cons.IH) auto
    ultimately show ?thesis using Suc by simp
  qed
qed

lemma filter_le1_unique:
  "length (filter P xs) \<le> 1 \<Longrightarrow> i < length xs \<Longrightarrow> P (xs ! i) \<Longrightarrow> j < length xs \<Longrightarrow> P (xs ! j)
     \<Longrightarrow> i = j"
proof (induction xs arbitrary: i j)
  case Nil
  then show ?case by simp
next
  case (Cons x xs)
  show ?case
  proof (cases "P x")
    case True
    with Cons.prems(1) have "filter P xs = []" by simp
    then have none: "\<forall>y\<in>set xs. \<not> P y" by (simp add: filter_empty_conv)
    have "i = 0"
    proof (rule ccontr)
      assume "i \<noteq> 0"
      then obtain k where "i = Suc k" by (cases i) auto
      with Cons.prems(2,3) none show False by auto
    qed
    moreover have "j = 0"
    proof (rule ccontr)
      assume "j \<noteq> 0"
      then obtain k where "j = Suc k" by (cases j) auto
      with Cons.prems(4,5) none show False by auto
    qed
    ultimately show ?thesis by simp
  next
    case False
    with Cons.prems obtain k l where "i = Suc k" "j = Suc l"
      by (cases i; cases j) auto
    with Cons.prems False Cons.IH[of k l] show ?thesis by simp
  qed
qed

subsection \<open>The reorder loops in closed form\<close>

lemma list_ex_idOf: "list_ex (\<lambda>x. idOf x = i) acc \<longleftrightarrow> i \<in> idOf ` set acc"
  by (induction acc) auto

lemma pushOrdered_fold:
  "fold (\<lambda>i newList. case m i of
                         Some (Some sh) \<Rightarrow> newList @ [durableEntry i (Some sh)]
                       | _ \<Rightarrow> newList) order acc
     = acc @ map (\<lambda>i. durableEntry i (the (m i)))
               (filter (\<lambda>i. m i \<noteq> None \<and> m i \<noteq> Some None) order)"
  by (induction order arbitrary: acc) (auto split: option.splits)

lemma pushOrdered_eq:
  "pushOrdered m order
     = map (\<lambda>i. durableEntry i (the (m i))) (filter (\<lambda>i. m i \<noteq> None \<and> m i \<noteq> Some None) order)"
  unfolding pushOrdered_def by (simp add: pushOrdered_fold)

lemma idTo_fold:
  "fold (\<lambda>s m. m(idOf s \<mapsto> shape s)) existing m0 i
     = (case map_of (rev (map (\<lambda>s. (idOf s, shape s)) existing)) i of
          None \<Rightarrow> m0 i | Some sh \<Rightarrow> Some sh)"
  by (induction existing arbitrary: m0) (auto simp: map_add_def split: option.splits)

lemma idTo_dom: "idTo existing i \<noteq> None \<longleftrightarrow> i \<in> idOf ` set existing"
  unfolding idTo_def idTo_fold
  by (force simp: map_of_eq_None_iff image_image split: option.splits dest: map_of_SomeD)

lemma idTo_some: "idTo existing i = Some sh \<Longrightarrow> \<exists>s\<in>set existing. idOf s = i \<and> shape s = sh"
  unfolding idTo_def idTo_fold
  by (auto split: option.splits dest!: map_of_SomeD)

lemma idTo_distinct:
  assumes "distinct (map idOf existing)" "s \<in> set existing"
  shows "idTo existing (idOf s) = Some (shape s)"
proof -
  from idTo_dom[of existing "idOf s"] assms(2)
  obtain sh where sh: "idTo existing (idOf s) = Some sh"
    by auto
  from idTo_some[OF sh] obtain s' where s': "s' \<in> set existing" "idOf s' = idOf s" "shape s' = sh"
    by auto
  from assms s'(1,2) have "s' = s"
    by (metis distinct_map inj_onD)
  with sh s'(3) show ?thesis by simp
qed

lemma appendMissing_fold_ids:
  "idOf ` set (fold (\<lambda>s acc. if list_ex (\<lambda>x. idOf x = idOf s) acc then acc else acc @ [s]) existing acc)
     = idOf ` set acc \<union> idOf ` set existing"
  by (induction existing arbitrary: acc) (auto simp: list_ex_idOf)

lemma appendMissing_fold_distinct:
  "distinct (map idOf existing) \<Longrightarrow>
   fold (\<lambda>s acc. if list_ex (\<lambda>x. idOf x = idOf s) acc then acc else acc @ [s]) existing acc
     = acc @ filter (\<lambda>s. idOf s \<notin> idOf ` set acc) existing"
proof (induction existing arbitrary: acc)
  case Nil
  then show ?case by simp
next
  case (Cons s rest)
  from Cons.prems have d: "distinct (map idOf rest)" and n: "idOf s \<notin> idOf ` set rest" by auto
  show ?case
  proof (cases "list_ex (\<lambda>x. idOf x = idOf s) acc")
    case True
    then have "idOf s \<in> idOf ` set acc" by (simp add: list_ex_idOf)
    with True Cons.IH[OF d, of acc] show ?thesis by simp
  next
    case False
    then have ns: "idOf s \<notin> idOf ` set acc" by (simp add: list_ex_idOf)
    have "filter (\<lambda>x. idOf x \<notin> idOf ` set (acc @ [s])) rest = filter (\<lambda>x. idOf x \<notin> idOf ` set acc) rest"
      using n by (intro filter_cong) (auto simp: image_iff)
    with False ns Cons.IH[OF d, of "acc @ [s]"] show ?thesis by simp
  qed
qed

lemma appendMissing_mem:
  "e \<in> set (fold (\<lambda>s acc. if list_ex (\<lambda>x. idOf x = idOf s) acc then acc else acc @ [s]) existing acc)
    \<Longrightarrow> e \<in> set acc \<or> (e \<in> set existing \<and> idOf e \<notin> idOf ` set acc)"
proof (induction existing arbitrary: acc)
  case Nil
  then show ?case by simp
next
  case (Cons s rest)
  show ?case
  proof (cases "list_ex (\<lambda>x. idOf x = idOf s) acc")
    case True
    with Cons.prems Cons.IH[of acc] show ?thesis by auto
  next
    case False
    with Cons.prems
    have "e \<in> set (acc @ [s]) \<or> (e \<in> set rest \<and> idOf e \<notin> idOf ` set (acc @ [s]))"
      using Cons.IH[of "acc @ [s]"] by simp
    moreover from False have "idOf s \<notin> idOf ` set acc" by (simp add: list_ex_idOf)
    ultimately show ?thesis by (auto simp: image_iff)
  qed
qed

lemma pushOrdered_ids:
  "idOf ` set (pushOrdered m order) = {i \<in> set order. m i \<noteq> None \<and> m i \<noteq> Some None}"
  by (auto simp: pushOrdered_eq durableEntry_def image_image)

lemma reorder_distinct:
  assumes "distinct (map idOf existing)"
  shows "applyRemoteReorder order existing =
      map (\<lambda>i. durableEntry i (the (idTo existing i)))
        (filter (\<lambda>i. \<exists>s\<in>set existing. idOf s = i \<and> shape s \<noteq> None) order)
      @ filter (\<lambda>s. idOf s \<notin> set order \<or> shape s = None) existing"
proof -
  let ?m = "idTo existing"
  let ?new = "pushOrdered ?m order"
  have known: "(?m i \<noteq> None \<and> ?m i \<noteq> Some None) \<longleftrightarrow> (\<exists>s\<in>set existing. idOf s = i \<and> shape s \<noteq> None)"
    for i
  proof
    assume "?m i \<noteq> None \<and> ?m i \<noteq> Some None"
    then obtain sh where "?m i = Some sh" "sh \<noteq> None" by auto
    with idTo_some[of existing i sh] show "\<exists>s\<in>set existing. idOf s = i \<and> shape s \<noteq> None" by auto
  next
    assume "\<exists>s\<in>set existing. idOf s = i \<and> shape s \<noteq> None"
    then obtain s where "s \<in> set existing" "idOf s = i" "shape s \<noteq> None" by auto
    with idTo_distinct[OF assms, of s] show "?m i \<noteq> None \<and> ?m i \<noteq> Some None" by auto
  qed
  have new: "?new = map (\<lambda>i. durableEntry i (the (?m i)))
                      (filter (\<lambda>i. \<exists>s\<in>set existing. idOf s = i \<and> shape s \<noteq> None) order)"
    unfolding pushOrdered_eq using known by simp
  have "(idOf s \<notin> idOf ` set ?new) \<longleftrightarrow> (idOf s \<notin> set order \<or> shape s = None)"
    if "s \<in> set existing" for s
    using that idTo_distinct[OF assms that] by (auto simp: pushOrdered_ids)
  then have "filter (\<lambda>s. idOf s \<notin> idOf ` set ?new) existing
               = filter (\<lambda>s. idOf s \<notin> set order \<or> shape s = None) existing"
    by (intro filter_cong) auto
  then show ?thesis
    unfolding applyRemoteReorder_def appendMissing_def appendMissing_fold_distinct[OF assms]
    using new by simp
qed

lemma reorder_ids: "idOf ` set (applyRemoteReorder order existing) = idOf ` set existing"
proof -
  have "idOf ` set (pushOrdered (idTo existing) order) \<subseteq> idOf ` set existing"
    using idTo_dom[of existing] by (auto simp: pushOrdered_ids)
  then show ?thesis
    unfolding applyRemoteReorder_def appendMissing_def appendMissing_fold_ids by auto
qed

subsection \<open>Unique ids\<close>

text \<open>
  C4. The store should never hold two entries with the same id, also when two shapes are
  created within one tick of the clock. The code breaks this: the id of a new shape is
  \<open>pending-\<close> followed by \<open>Date.now()\<close> alone, so two gestures that end in the same
  millisecond push two entries with one id. Here the store is empty (its ids distinct),
  and after a rectangle and a circle are added at \<open>Date.now() = 1700000000000\<close> the ids
  are no longer distinct.
\<close>

theorem pending_id_collision:
  "distinct (map idOf (existingShapes
      \<lparr>existingShapes = [], selectedShapeId = None, cameraX = 0, cameraY = 0, zoom = 1\<rparr>))
   \<and> \<not> distinct (map idOf (existingShapes
        (addPending 1700000000000 (Circle 5 5 3 plain)
          (addPending 1700000000000 (Rect 0 0 10 10 plain)
            \<lparr>existingShapes = [], selectedShapeId = None, cameraX = 0, cameraY = 0, zoom = 1\<rparr>))))"
  by (simp add: addPending_def)

text \<open>
  The other operations keep the ids distinct: a remote delete, a remote update and
  \<open>bringToFront\<close> always; a remote reorder when the order itself repeats no id; a \<open>chat\<close>
  event whose durable id is not yet in the store; and a new pending shape whose id is not
  yet in the store.
\<close>

lemma onDelete_distinct:
  "distinct (map idOf (existingShapes g)) \<Longrightarrow> distinct (map idOf (existingShapes (onDelete i g)))"
  by (simp add: onDelete_def distinct_map_filter)

lemma onUpdate_distinct:
  assumes "distinct (map idOf existing)"
  shows "distinct (map idOf (onUpdate i sh existing))"
proof (cases "findIndex (\<lambda>s. idOf s = i) existing")
  case None
  then have "i \<notin> idOf ` set existing" by (auto simp: findIndex_None)
  with None assms show ?thesis by (simp add: onUpdate_def durableEntry_def)
next
  case (Some idx)
  from findIndex_Some[OF Some] have "idx < length existing" by simp
  then have "map idOf (existing[idx := (existing ! idx)\<lparr>shape := sh\<rparr>]) = map idOf existing"
    by (simp add: map_update list_update_same_conv)
  with Some assms show ?thesis by (simp add: onUpdate_def)
qed

lemma bringToFront_distinct:
  assumes "distinct (map idOf (existingShapes g))"
  shows "distinct (map idOf (existingShapes (bringToFront i g)))"
proof (cases "findIndex (\<lambda>s. idOf s = i) (existingShapes g)")
  case None
  with assms show ?thesis by (simp add: bringToFront_def)
next
  case (Some idx)
  let ?xs = "existingShapes g"
  from findIndex_Some[OF Some] have idx: "idx < length ?xs" by simp
  from assms id_take_nth_drop[OF idx]
  have "distinct (map idOf (take idx ?xs @ ?xs ! idx # drop (Suc idx) ?xs))" by simp
  then have "distinct (map idOf (take idx ?xs @ drop (Suc idx) ?xs @ [?xs ! idx]))" by auto
  with Some show ?thesis by (simp add: bringToFront_def)
qed

lemma reorder_distinct_ids:
  assumes "distinct (map idOf existing)" "distinct order"
  shows "distinct (map idOf (applyRemoteReorder order existing))"
proof -
  let ?headpart = "filter (\<lambda>i. \<exists>s\<in>set existing. idOf s = i \<and> shape s \<noteq> None) order"
  let ?tailpart = "filter (\<lambda>s. idOf s \<notin> set order \<or> shape s = None) existing"
  have "map idOf (applyRemoteReorder order existing) = ?headpart @ map idOf ?tailpart"
    unfolding reorder_distinct[OF assms(1)] by (simp add: durableEntry_def comp_def)
  moreover have "distinct ?headpart" using assms(2) by simp
  moreover have "distinct (map idOf ?tailpart)"
    using assms(1) by (simp add: distinct_map_filter)
  moreover have "set ?headpart \<inter> set (map idOf ?tailpart) = {}"
  proof -
    have False if "i \<in> set ?headpart" "i \<in> set (map idOf ?tailpart)" for i
    proof -
      from that(1) obtain s where s: "s \<in> set existing" "idOf s = i" "shape s \<noteq> None" "i \<in> set order"
        by auto
      from that(2) obtain s' where s': "s' \<in> set existing" "idOf s' = i"
        "i \<notin> set order \<or> shape s' = None" by auto
      from assms(1) s(1,2) s'(1,2) have "s' = s" by (metis distinct_map inj_onD)
      with s s' show False by simp
    qed
    then show ?thesis by blast
  qed
  ultimately show ?thesis by simp
qed

lemma onChat_distinct:
  assumes "distinct (map idOf existing)" "serverId \<notin> idOf ` set existing"
  shows "distinct (map idOf (onChat serverId sh tmp existing))"
proof (cases "if truthy tmp then findIndex (\<lambda>s. tempId s = tmp \<or> Some (idOf s) = tmp) existing else None")
  case None
  with assms show ?thesis by (auto simp: onChat_def durableEntry_def)
next
  case (Some idx)
  then have "findIndex (\<lambda>s. tempId s = tmp \<or> Some (idOf s) = tmp) existing = Some idx"
    by (simp split: if_splits)
  from findIndex_Some[OF this] have idx: "idx < length existing" by simp
  have "map idOf (existing[idx := durableEntry serverId sh]) = (map idOf existing)[idx := serverId]"
    by (simp add: map_update durableEntry_def)
  moreover have "distinct ((map idOf existing)[idx := serverId])"
    using assms idx by (simp add: distinct_list_update)
  ultimately show ?thesis using Some by (simp add: onChat_def)
qed

lemma addPending_distinct:
  assumes "distinct (map idOf (existingShapes g))" "pendingId now \<notin> idOf ` set (existingShapes g)"
  shows "distinct (map idOf (existingShapes (addPending now sh g)))"
  using assms by (simp add: addPending_def)

text \<open>An order that repeats an id repeats the entry.\<close>

lemma repeated_order_duplicates:
  "applyRemoteReorder [''42'', ''42''] [\<lparr>idOf = ''42'', shape = Some (Rect 0 0 10 10 plain), tempId = None\<rparr>]
     = [\<lparr>idOf = ''42'', shape = Some (Rect 0 0 10 10 plain), tempId = None\<rparr>,
        \<lparr>idOf = ''42'', shape = Some (Rect 0 0 10 10 plain), tempId = None\<rparr>]"
  by (simp add: applyRemoteReorder_def appendMissing_def pushOrdered_def idTo_def durableEntry_def)

subsection \<open>Reconciliation\<close>

text \<open>
  C5 as stated, for any store: applying a reconciliation twice gives the state of applying
  it once. It fails on a store where two entries match the event's \<open>tempId\<close> (two shapes
  created in the same millisecond): the first delivery replaces the first of them, the
  second delivery replaces the other one.
\<close>

theorem reconcile_twice_counterexample:
  "onChat ''42'' (Some (Rect 0 0 10 10 plain)) (Some ''pending-5'')
     (onChat ''42'' (Some (Rect 0 0 10 10 plain)) (Some ''pending-5'')
        [\<lparr>idOf = ''pending-5'', shape = Some (Rect 0 0 10 10 plain),
          tempId = Some ''pending-5''\<rparr>,
         \<lparr>idOf = ''pending-5'', shape = Some (Circle 5 5 3 plain),
          tempId = Some ''pending-5''\<rparr>])
   \<noteq> onChat ''42'' (Some (Rect 0 0 10 10 plain)) (Some ''pending-5'')
        [\<lparr>idOf = ''pending-5'', shape = Some (Rect 0 0 10 10 plain),
          tempId = Some ''pending-5''\<rparr>,
         \<lparr>idOf = ''pending-5'', shape = Some (Circle 5 5 3 plain),
          tempId = Some ''pending-5''\<rparr>]"
  by (simp add: onChat_def durableEntry_def)

text \<open>
  C5, amended: when at most one entry of the store has its \<open>id\<close> or its \<open>tempId\<close> equal to
  the event's (truthy) \<open>tempId\<close>, applying the \<open>chat\<close> event (durable id, shape, tempId) a
  second time leaves the store as the first application left it. Any store whose ids are
  pairwise distinct and whose \<open>tempId\<close>s, where present, equal their entry's id is such a
  store.
\<close>

theorem reconcile_idempotent:
  assumes one: "length (filter (\<lambda>s. truthy tmp \<and> (tempId s = tmp \<or> Some (idOf s) = tmp)) existing) \<le> 1"
  shows "onChat serverId serverShape tmp (onChat serverId serverShape tmp existing)
           = onChat serverId serverShape tmp existing"
proof -
  let ?P = "\<lambda>s. tempId s = tmp \<or> Some (idOf s) = tmp"
  let ?d = "durableEntry serverId serverShape"
  have ex_d: "\<And>xs. ?d \<in> set xs \<Longrightarrow> list_ex (\<lambda>s. idOf s = serverId) xs"
    by (auto simp: list_ex_iff durableEntry_def intro: bexI[where x = ?d])
  show ?thesis
  proof (cases "truthy tmp")
    case False
    then show ?thesis
      by (auto simp: onChat_def list_ex_iff durableEntry_def)
  next
    case True
    with one have one': "length (filter ?P existing) \<le> 1" by simp
    show ?thesis
    proof (cases "findIndex ?P existing")
      case None
      then have no: "\<forall>x\<in>set existing. \<not> ?P x" by (simp add: findIndex_None)
      show ?thesis
      proof (cases "list_ex (\<lambda>s. idOf s = serverId) existing")
        case ex: True
        with None True show ?thesis by (simp add: onChat_def)
      next
        case nex: False
        with None True have r1: "onChat serverId serverShape tmp existing = existing @ [?d]"
          by (simp add: onChat_def)
        show ?thesis
        proof (cases "?P ?d")
          case Pd: True
          have "findIndex ?P (existing @ [?d]) = Some (length existing)"
            using no Pd by (intro findIndex_first) (auto simp: nth_append)
          with True show ?thesis unfolding r1 by (simp add: onChat_def)
        next
          case nPd: False
          with no have "findIndex ?P (existing @ [?d]) = None" by (simp add: findIndex_None)
          with True ex_d[of "existing @ [?d]"] show ?thesis unfolding r1 by (simp add: onChat_def)
        qed
      qed
    next
      case (Some idx)
      from findIndex_Some[OF Some] have idx: "idx < length existing" "?P (existing ! idx)"
        "\<forall>j<idx. \<not> ?P (existing ! j)" by auto
      from Some True have r1: "onChat serverId serverShape tmp existing = existing[idx := ?d]"
        by (simp add: onChat_def)
      have mem: "?d \<in> set (existing[idx := ?d])" using idx(1) by (simp add: set_update_memI)
      show ?thesis
      proof (cases "?P ?d")
        case Pd: True
        have "findIndex ?P (existing[idx := ?d]) = Some idx"
          using idx Pd by (intro findIndex_first) (auto simp: nth_list_update)
        with True show ?thesis unfolding r1 by (simp add: onChat_def)
      next
        case nPd: False
        have "\<forall>x\<in>set (existing[idx := ?d]). \<not> ?P x"
        proof
          fix x assume "x \<in> set (existing[idx := ?d])"
          then obtain j where j: "j < length existing" "x = (existing[idx := ?d]) ! j"
            by (auto simp: in_set_conv_nth)
          show "\<not> ?P x"
          proof (cases "j = idx")
            case True
            with j idx(1) nPd show ?thesis by simp
          next
            case False
            with j have x: "x = existing ! j" by simp
            show ?thesis
            proof
              assume "?P x"
              with x one' idx j(1) have "j = idx"
                using filter_le1_unique[of ?P existing j idx] by blast
              with False show False by simp
            qed
          qed
        qed
        then have "findIndex ?P (existing[idx := ?d]) = None" by (simp add: findIndex_None)
        with True ex_d[OF mem] show ?thesis unfolding r1 by (simp add: onChat_def)
      qed
    qed
  qed
qed

theorem reconcile_idempotent_witness:
  "length (filter (\<lambda>s. truthy (Some ''pending-5'') \<and> (tempId s = Some ''pending-5'' \<or> Some (idOf s) = Some ''pending-5''))
      [\<lparr>idOf = ''7'', shape = Some (Circle 5 5 3 plain), tempId = None\<rparr>,
       \<lparr>idOf = ''pending-5'', shape = Some (Rect 0 0 10 10 plain),
        tempId = Some ''pending-5''\<rparr>]) \<le> 1
   \<and> onChat ''42'' (Some (Rect 0 0 10 10 plain)) (Some ''pending-5'')
       (onChat ''42'' (Some (Rect 0 0 10 10 plain)) (Some ''pending-5'')
         [\<lparr>idOf = ''7'', shape = Some (Circle 5 5 3 plain), tempId = None\<rparr>,
          \<lparr>idOf = ''pending-5'', shape = Some (Rect 0 0 10 10 plain),
           tempId = Some ''pending-5''\<rparr>])
     = [\<lparr>idOf = ''7'', shape = Some (Circle 5 5 3 plain), tempId = None\<rparr>,
        \<lparr>idOf = ''42'', shape = Some (Rect 0 0 10 10 plain), tempId = None\<rparr>]"
proof -
  let ?store = "[\<lparr>idOf = ''7'', shape = Some (Circle 5 5 3 plain), tempId = None\<rparr>,
       \<lparr>idOf = ''pending-5'', shape = Some (Rect 0 0 10 10 plain),
        tempId = Some ''pending-5''\<rparr>]"
  have h: "length (filter (\<lambda>s. truthy (Some ''pending-5'') \<and> (tempId s = Some ''pending-5'' \<or> Some (idOf s) = Some ''pending-5'')) ?store) \<le> 1"
    by simp
  have once: "onChat ''42'' (Some (Rect 0 0 10 10 plain)) (Some ''pending-5'') ?store
     = [\<lparr>idOf = ''7'', shape = Some (Circle 5 5 3 plain), tempId = None\<rparr>,
        \<lparr>idOf = ''42'', shape = Some (Rect 0 0 10 10 plain), tempId = None\<rparr>]"
    by (simp add: onChat_def durableEntry_def)
  from reconcile_idempotent[OF h, of "''42''" "Some (Rect 0 0 10 10 plain)"] once h
  show ?thesis by simp
qed

subsection \<open>Reordering\<close>

text \<open>
  C6 as stated, for any store: the reordered sequence contains every entry of the prior
  store, those whose id is in the order first and in the order given. It fails in two
  ways. When two entries share an id that the order does not mention, the second loop
  appends the first of them and then finds that id in the new list, so the other entry is
  dropped. And an entry stored without a shape is passed over by the first loop
  (\<open>if (shape)\<close>) and appended by the second: with the order 9, a the entry 9 comes
  last, not first.
\<close>

theorem reorder_duplicate_ids_counterexample:
  "\<lparr>idOf = ''pending-5'', shape = Some (Circle 5 5 3 plain), tempId = Some ''pending-5''\<rparr>
     \<in> set [\<lparr>idOf = ''pending-5'', shape = Some (Rect 0 0 10 10 plain), tempId = Some ''pending-5''\<rparr>,
            \<lparr>idOf = ''pending-5'', shape = Some (Circle 5 5 3 plain), tempId = Some ''pending-5''\<rparr>]
   \<and> applyRemoteReorder [''7'']
        [\<lparr>idOf = ''pending-5'', shape = Some (Rect 0 0 10 10 plain), tempId = Some ''pending-5''\<rparr>,
         \<lparr>idOf = ''pending-5'', shape = Some (Circle 5 5 3 plain), tempId = Some ''pending-5''\<rparr>]
      = [\<lparr>idOf = ''pending-5'', shape = Some (Rect 0 0 10 10 plain), tempId = Some ''pending-5''\<rparr>]
   \<and> applyRemoteReorder [''9'', ''a'']
        [\<lparr>idOf = ''a'', shape = Some (Rect 0 0 10 10 plain), tempId = None\<rparr>,
         \<lparr>idOf = ''9'', shape = None, tempId = None\<rparr>]
      = [\<lparr>idOf = ''a'', shape = Some (Rect 0 0 10 10 plain), tempId = None\<rparr>,
         \<lparr>idOf = ''9'', shape = None, tempId = None\<rparr>]"
  by (simp add: applyRemoteReorder_def appendMissing_def pushOrdered_def idTo_def durableEntry_def)

text \<open>
  C6, amended: for any store and any order, the reordered store holds exactly the ids of
  the prior store, so no id is dropped; and when the ids of the store are pairwise
  distinct, the result is, first, one rebuilt entry \<open>{ id, shape }\<close> for each id of the order
  under which the store holds an entry with a shape, in the order given and with that
  shape, followed by every entry whose id the order does not mention or that has no shape,
  unchanged and in their prior relative order.
\<close>

theorem reorder_keeps_entries:
  "idOf ` set (applyRemoteReorder order existing) = idOf ` set existing
   \<and> (distinct (map idOf existing) \<longrightarrow>
        applyRemoteReorder order existing =
          map (\<lambda>i. durableEntry i (the (idTo existing i)))
            (filter (\<lambda>i. \<exists>s\<in>set existing. idOf s = i \<and> shape s \<noteq> None) order)
          @ filter (\<lambda>s. idOf s \<notin> set order \<or> shape s = None) existing
        \<and> (\<forall>s\<in>set existing. idTo existing (idOf s) = Some (shape s)))"
proof (intro conjI impI ballI)
  show "idOf ` set (applyRemoteReorder order existing) = idOf ` set existing"
    by (rule reorder_ids)
next
  assume "distinct (map idOf existing)"
  then show "applyRemoteReorder order existing =
          map (\<lambda>i. durableEntry i (the (idTo existing i)))
            (filter (\<lambda>i. \<exists>s\<in>set existing. idOf s = i \<and> shape s \<noteq> None) order)
          @ filter (\<lambda>s. idOf s \<notin> set order \<or> shape s = None) existing"
    by (rule reorder_distinct)
next
  fix s assume "distinct (map idOf existing)" "s \<in> set existing"
  then show "idTo existing (idOf s) = Some (shape s)" by (rule idTo_distinct)
qed

theorem reorder_keeps_entries_witness:
  "distinct (map idOf
      [\<lparr>idOf = ''a'', shape = Some (Rect 0 0 10 10 plain), tempId = None\<rparr>,
       \<lparr>idOf = ''pending-5'', shape = Some (Circle 5 5 3 plain), tempId = Some ''pending-5''\<rparr>,
       \<lparr>idOf = ''9'', shape = None, tempId = None\<rparr>,
       \<lparr>idOf = ''b'', shape = Some (Line 0 0 4 4 plain), tempId = None\<rparr>])
   \<and> applyRemoteReorder [''b'', ''9'', ''zz'', ''a'']
       [\<lparr>idOf = ''a'', shape = Some (Rect 0 0 10 10 plain), tempId = None\<rparr>,
        \<lparr>idOf = ''pending-5'', shape = Some (Circle 5 5 3 plain), tempId = Some ''pending-5''\<rparr>,
        \<lparr>idOf = ''9'', shape = None, tempId = None\<rparr>,
        \<lparr>idOf = ''b'', shape = Some (Line 0 0 4 4 plain), tempId = None\<rparr>]
     = [\<lparr>idOf = ''b'', shape = Some (Line 0 0 4 4 plain), tempId = None\<rparr>,
        \<lparr>idOf = ''a'', shape = Some (Rect 0 0 10 10 plain), tempId = None\<rparr>,
        \<lparr>idOf = ''pending-5'', shape = Some (Circle 5 5 3 plain), tempId = Some ''pending-5''\<rparr>,
        \<lparr>idOf = ''9'', shape = None, tempId = None\<rparr>]"
proof -
  let ?store = "[\<lparr>idOf = ''a'', shape = Some (Rect 0 0 10 10 plain), tempId = None\<rparr>,
       \<lparr>idOf = ''pending-5'', shape = Some (Circle 5 5 3 plain), tempId = Some ''pending-5''\<rparr>,
       \<lparr>idOf = ''9'', shape = None, tempId = None\<rparr>,
       \<lparr>idOf = ''b'', shape = Some (Line 0 0 4 4 plain), tempId = None\<rparr>]"
  let ?order = "[''b'', ''9'', ''zz'', ''a'']"
  have d: "distinct (map idOf ?store)" by simp
  have "distinct (map idOf ?store) \<longrightarrow>
        applyRemoteReorder ?order ?store =
          map (\<lambda>i. durableEntry i (the (idTo ?store i)))
            (filter (\<lambda>i. \<exists>s\<in>set ?store. idOf s = i \<and> shape s \<noteq> None) ?order)
          @ filter (\<lambda>s. idOf s \<notin> set ?order \<or> shape s = None) ?store
        \<and> (\<forall>s\<in>set ?store. idTo ?store (idOf s) = Some (shape s))"
    using reorder_keeps_entries[of ?order ?store] by (rule conjunct2)
  with d have "applyRemoteReorder ?order ?store =
          map (\<lambda>i. durableEntry i (the (idTo ?store i)))
            (filter (\<lambda>i. \<exists>s\<in>set ?store. idOf s = i \<and> shape s \<noteq> None) ?order)
          @ filter (\<lambda>s. idOf s \<notin> set ?order \<or> shape s = None) ?store"
    by (rule_tac conjunct1) (erule mp)
  then show ?thesis by (simp add: idTo_def durableEntry_def)
qed

text \<open>
  C9 as stated: every entry whose id appears in the received order is rebuilt as
  \<open>{ id, shape }\<close> with its shape unchanged. It fails when two entries share an id of the
  order (two shapes created in the same millisecond): the map keeps the later shape under
  that id, one entry is built from it, and the rectangle is not rebuilt at all.
\<close>

theorem reorder_frame_counterexample:
  "\<lparr>idOf = ''pending-5'', shape = Some (Rect 0 0 10 10 plain), tempId = Some ''pending-5''\<rparr>
     \<in> set [\<lparr>idOf = ''pending-5'', shape = Some (Rect 0 0 10 10 plain), tempId = Some ''pending-5''\<rparr>,
            \<lparr>idOf = ''pending-5'', shape = Some (Circle 5 5 3 plain), tempId = Some ''pending-5''\<rparr>]
   \<and> ''pending-5'' \<in> set [''pending-5'']
   \<and> \<lparr>idOf = ''pending-5'', shape = Some (Rect 0 0 10 10 plain), tempId = None\<rparr>
     \<notin> set (applyRemoteReorder [''pending-5'']
        [\<lparr>idOf = ''pending-5'', shape = Some (Rect 0 0 10 10 plain), tempId = Some ''pending-5''\<rparr>,
         \<lparr>idOf = ''pending-5'', shape = Some (Circle 5 5 3 plain), tempId = Some ''pending-5''\<rparr>])
   \<and> applyRemoteReorder [''pending-5'']
        [\<lparr>idOf = ''pending-5'', shape = Some (Rect 0 0 10 10 plain), tempId = Some ''pending-5''\<rparr>,
         \<lparr>idOf = ''pending-5'', shape = Some (Circle 5 5 3 plain), tempId = Some ''pending-5''\<rparr>]
      = [\<lparr>idOf = ''pending-5'', shape = Some (Circle 5 5 3 plain), tempId = None\<rparr>]"
  by (simp add: applyRemoteReorder_def appendMissing_def pushOrdered_def idTo_def durableEntry_def)

text \<open>
  An entry without a shape is not rebuilt either: it is appended as it is, with its
  \<open>tempId\<close> if it has one.
\<close>

lemma reorder_keeps_shapeless_entry:
  "applyRemoteReorder [''x''] [\<lparr>idOf = ''x'', shape = None, tempId = Some ''x''\<rparr>]
     = [\<lparr>idOf = ''x'', shape = None, tempId = Some ''x''\<rparr>]"
  by (simp add: applyRemoteReorder_def appendMissing_def pushOrdered_def idTo_def)

text \<open>
  C9, amended: when the ids of the store are pairwise distinct, reordering rebuilds every
  entry that has a shape and whose id appears in the received order as \<open>{ id, shape }\<close>
  only, without its \<open>tempId\<close> and with its shape unchanged, and every entry whose id is
  absent from the order, or that has no shape, keeps all its fields, \<open>tempId\<close> included:
  each stored entry of the first kind appears rebuilt, each of the second kind appears as it
  was, and the result holds nothing else. For any store, every entry of the result is
  either such an \<open>{ id, shape }\<close>, with an id of the order and a shape the store held under
  that id, or an entry of the prior store with all its fields; and an entry of the result
  whose id is not in the order is always of the second kind.
\<close>

theorem reorder_frame:
  "(\<forall>e\<in>set (applyRemoteReorder order existing).
      (idOf e \<in> set order \<and> tempId e = None \<and> shape e \<noteq> None
         \<and> (\<exists>s\<in>set existing. idOf s = idOf e \<and> shape s = shape e))
      \<or> e \<in> set existing)
   \<and> (\<forall>e\<in>set (applyRemoteReorder order existing). idOf e \<notin> set order \<longrightarrow> e \<in> set existing)
   \<and> (distinct (map idOf existing) \<longrightarrow>
        (\<forall>s\<in>set existing.
           if idOf s \<in> set order \<and> shape s \<noteq> None
           then \<lparr>idOf = idOf s, shape = shape s, tempId = None\<rparr> \<in> set (applyRemoteReorder order existing)
           else s \<in> set (applyRemoteReorder order existing))
        \<and> (\<forall>e\<in>set (applyRemoteReorder order existing).
             if idOf e \<in> set order \<and> shape e \<noteq> None
             then tempId e = None \<and> (\<exists>s\<in>set existing. idOf s = idOf e \<and> shape s = shape e)
             else e \<in> set existing))"
proof -
  let ?new = "pushOrdered (idTo existing) order"
  let ?res = "applyRemoteReorder order existing"
  have rebuilt: "idOf e \<in> set order \<and> tempId e = None \<and> shape e \<noteq> None
         \<and> (\<exists>s\<in>set existing. idOf s = idOf e \<and> shape s = shape e)"
    if "e \<in> set ?new" for e
  proof -
    from that obtain i where i: "i \<in> set order" "idTo existing i \<noteq> None"
      "idTo existing i \<noteq> Some None" "e = durableEntry i (the (idTo existing i))"
      by (auto simp: pushOrdered_eq)
    then obtain sh where sh: "idTo existing i = Some (Some sh)" by auto
    from idTo_some[OF sh] i sh show ?thesis by (auto simp: durableEntry_def)
  qed
  have split: "e \<in> set ?new \<or> (e \<in> set existing \<and> idOf e \<notin> idOf ` set ?new)"
    if "e \<in> set ?res" for e
    using that appendMissing_mem[of e existing ?new]
    unfolding applyRemoteReorder_def appendMissing_def by blast
  have A: "\<forall>e\<in>set ?res.
      (idOf e \<in> set order \<and> tempId e = None \<and> shape e \<noteq> None
         \<and> (\<exists>s\<in>set existing. idOf s = idOf e \<and> shape s = shape e))
      \<or> e \<in> set existing"
    using split rebuilt by blast
  have B: "\<forall>e\<in>set ?res. idOf e \<notin> set order \<longrightarrow> e \<in> set existing"
    using split rebuilt by blast
  have C: "\<forall>s\<in>set existing.
           if idOf s \<in> set order \<and> shape s \<noteq> None
           then \<lparr>idOf = idOf s, shape = shape s, tempId = None\<rparr> \<in> set ?res
           else s \<in> set ?res"
    if d: "distinct (map idOf existing)"
  proof
    fix s assume s: "s \<in> set existing"
    note r = reorder_distinct[OF d, of order]
    show "if idOf s \<in> set order \<and> shape s \<noteq> None
           then \<lparr>idOf = idOf s, shape = shape s, tempId = None\<rparr> \<in> set ?res
           else s \<in> set ?res"
    proof (cases "idOf s \<in> set order \<and> shape s \<noteq> None")
      case True
      with s have "idOf s \<in> {i \<in> set order. \<exists>s\<in>set existing. idOf s = i \<and> shape s \<noteq> None}"
        by auto
      then have "durableEntry (idOf s) (the (idTo existing (idOf s)))
            \<in> (\<lambda>i. durableEntry i (the (idTo existing i)))
                ` {i \<in> set order. \<exists>s\<in>set existing. idOf s = i \<and> shape s \<noteq> None}"
        by (rule imageI)
      then show ?thesis using True idTo_distinct[OF d s] unfolding r
        by (simp add: durableEntry_def)
    next
      case False
      with s show ?thesis unfolding r by auto
    qed
  qed
  have D: "\<forall>e\<in>set ?res.
             if idOf e \<in> set order \<and> shape e \<noteq> None
             then tempId e = None \<and> (\<exists>s\<in>set existing. idOf s = idOf e \<and> shape s = shape e)
             else e \<in> set existing"
    if d: "distinct (map idOf existing)"
  proof
    fix e assume e: "e \<in> set ?res"
    from split[OF e] show "if idOf e \<in> set order \<and> shape e \<noteq> None
             then tempId e = None \<and> (\<exists>s\<in>set existing. idOf s = idOf e \<and> shape s = shape e)
             else e \<in> set existing"
    proof
      assume "e \<in> set ?new"
      from rebuilt[OF this] show ?thesis by simp
    next
      assume old: "e \<in> set existing \<and> idOf e \<notin> idOf ` set ?new"
      then have "idOf e \<notin> set order \<or> shape e = None"
        using idTo_distinct[OF d, of e] by (auto simp: pushOrdered_ids)
      with old show ?thesis by auto
    qed
  qed
  from A B C D show ?thesis by blast
qed

theorem reorder_frame_witness:
  "distinct (map idOf
      [\<lparr>idOf = ''pending-5'', shape = Some (Circle 5 5 3 plain), tempId = Some ''pending-5''\<rparr>,
       \<lparr>idOf = ''pending-6'', shape = Some (Rect 0 0 10 10 plain), tempId = Some ''pending-6''\<rparr>])
   \<and> \<lparr>idOf = ''pending-5'', shape = Some (Circle 5 5 3 plain), tempId = None\<rparr>
       \<in> set (applyRemoteReorder [''pending-5'']
           [\<lparr>idOf = ''pending-5'', shape = Some (Circle 5 5 3 plain), tempId = Some ''pending-5''\<rparr>,
            \<lparr>idOf = ''pending-6'', shape = Some (Rect 0 0 10 10 plain), tempId = Some ''pending-6''\<rparr>])
   \<and> \<lparr>idOf = ''pending-6'', shape = Some (Rect 0 0 10 10 plain), tempId = Some ''pending-6''\<rparr>
       \<in> set (applyRemoteReorder [''pending-5'']
           [\<lparr>idOf = ''pending-5'', shape = Some (Circle 5 5 3 plain), tempId = Some ''pending-5''\<rparr>,
            \<lparr>idOf = ''pending-6'', shape = Some (Rect 0 0 10 10 plain), tempId = Some ''pending-6''\<rparr>])"
proof -
  let ?a = "\<lparr>idOf = ''pending-5'', shape = Some (Circle 5 5 3 plain), tempId = Some ''pending-5''\<rparr>"
  let ?b = "\<lparr>idOf = ''pending-6'', shape = Some (Rect 0 0 10 10 plain), tempId = Some ''pending-6''\<rparr>"
  have d: "distinct (map idOf [?a, ?b])" by simp
  from reorder_frame[of "[''pending-5'']" "[?a, ?b]"] d
  have all: "\<forall>s\<in>set [?a, ?b].
           if idOf s \<in> set [''pending-5''] \<and> shape s \<noteq> None
           then \<lparr>idOf = idOf s, shape = shape s, tempId = None\<rparr>
                  \<in> set (applyRemoteReorder [''pending-5''] [?a, ?b])
           else s \<in> set (applyRemoteReorder [''pending-5''] [?a, ?b])"
    by blast
  from all have "\<lparr>idOf = idOf ?a, shape = shape ?a, tempId = None\<rparr>
                   \<in> set (applyRemoteReorder [''pending-5''] [?a, ?b])"
    by simp
  moreover from all have "?b \<in> set (applyRemoteReorder [''pending-5''] [?a, ?b])"
    by simp
  ultimately show ?thesis using d by simp
qed

section \<open>Properties of the camera\<close>

text \<open>
  C10. Whatever zoom is requested of \<open>setZoom\<close>, and so also for the product that the
  wheel listener requests, the zoom factor stored afterwards lies in the closed interval
  from 0.1 to 8.
\<close>

theorem setZoom_bounds:
  "0.1 \<le> zoom (setZoom requested screenX screenY g) \<and> zoom (setZoom requested screenX screenY g) \<le> 8
   \<and> 0.1 \<le> zoom (onWheel deltaY cx cy g) \<and> zoom (onWheel deltaY cx cy g) \<le> 8"
  by (auto simp: setZoom_def onWheel_def Let_def split: option.splits)

section \<open>Properties of the selection hit test\<close>

text \<open>
  C8 as stated: a point is inside a diamond exactly when its taxicab-normalized distance
  from the centre is at most 1. The code tests the padded bounding box instead (its comment
  says so): the corner of the bounding box of a diamond 100 wide and 100 high is a hit for
  \<open>pointInShape\<close>, though its taxicab-normalized distance is above 1, with the padding
  added to the half-extents as well as with the eraser's unpadded test.
\<close>

theorem diamond_corner_counterexample:
  "pointInShape 50 50 (Diamond 0 0 100 100 plain None) 6
   \<and> \<not> taxicabInside 50 50 0 0 100 100 6
   \<and> \<not> isPointInShape 10 50 50 (Diamond 0 0 100 100 plain None)"
  by (simp add: taxicabInside_def)

text \<open>
  C8, amended: for every diamond and every query point, the interior containment check of
  the selection hit test classifies the point as inside exactly when it lies in the
  diamond's bounding box grown by the padding on every side, that is when \<open>|dx|\<close> is at most
  the half-width plus the padding and \<open>|dy|\<close> is at most the half-height plus the padding.
\<close>

theorem diamond_hit_is_padded_box:
  "pointInShape x y (Diamond centerX centerY width height st cr) padding
     = (\<bar>x - centerX\<bar> \<le> width / 2 + padding \<and> \<bar>y - centerY\<bar> \<le> height / 2 + padding)"
  by (auto simp: Let_def abs_le_iff)

section \<open>Properties of the resize tool\<close>

lemma newBBox_min:
  "6 \<le> bbW (computeNewBBoxFromHandle b handle dx dy) \<and> 6 \<le> bbH (computeNewBBoxFromHandle b handle dx dy)"
  by (simp add: computeNewBBoxFromHandle_def Let_def)

text \<open>
  C3 as stated, for every shape variant: the resized shape's bounding box is at least 6
  wide and 6 high. For a line the transform moves one endpoint by the pointer delta and
  clamps nothing: dragging the east handle of the line from (0, 0) to (10, 10) by 10 to
  the left gives a vertical line, whose bounding box has width 0.
\<close>

theorem resize_line_counterexample:
  "applyResize (\<lambda>fs ff t. 0) (startResize ''42'' (Line 0 0 10 10 plain) 100 100 He) 90 100
     = Resized (Line 0 0 0 10 plain)
   \<and> bbW (bbox (Line 0 0 0 10 plain)) = 0"
  by (simp add: applyResize_def startResize_def computeNewBBoxFromHandle_def)

text \<open>
  The same happens for a pencil stroke whose bounding box has no width: every point is
  mapped to the new centre's abscissa.
\<close>

lemma resize_other_variants_below_minimum:
  "applyResize (\<lambda>fs ff t. 0) (startResize ''42'' (Pencil [(0, 0), (0, 10)] 2 ''white'') 100 100 He) 150 100
     = Resized (Pencil [(25, 0), (25, 10)] 2 ''white'')
   \<and> bbW (bbox (Pencil [(25, 0), (25, 10)] 2 ''white'')) = 0"
  by (simp add: applyResize_def startResize_def computeNewBBoxFromHandle_def orElse_def minCoord_def maxCoord_def)

text \<open>
  A text box takes its new height from the wrapped line count and the font size, which a
  horizontal handle leaves alone: one line at font size 2 is 2.4 high.
\<close>

lemma resize_text_below_minimum:
  "applyResize (\<lambda>fs ff t. 0)
      (startResize ''42''
         (Text \<lparr>boxId = None, boxX = 0, boxY = 0, boxWidth = 100, boxHeight = 20, boxText = ''hi'', fontSize = 2,
                fontFamily = ''Arial'', lineHeight = 1.2, textAlign = AlignLeft,
                verticalAlign = AlignTop, boxStroke = plain\<rparr>) 100 100 He) 150 100
     = Resized (Text \<lparr>boxId = None, boxX = 0, boxY = 0, boxWidth = 150, boxHeight = 2.4, boxText = ''hi'', fontSize = 2,
                fontFamily = ''Arial'', lineHeight = 1.2, textAlign = AlignLeft,
                verticalAlign = AlignTop, boxStroke = plain\<rparr>)"
  by (simp add: applyResize_def startResize_def computeNewBBoxFromHandle_def resizeText_def
        wrapLines_def splitWs_def spaceLen_def spaceCodes_def orElse_def)

text \<open>
  C3, amended: for a rectangle, a circle or a diamond, every resize handle and every
  pointer position, the resize transform of an active gesture returns a shape whose
  bounding box is at least 6 units wide and 6 units high.
\<close>

theorem resize_min_size:
  assumes active: "activeHandle tool = Some handle" "startPointer tool = Some start"
      "originalShape tool = Some orig"
    and variant: "(\<exists>x y w h st. orig = Rect x y w h st) \<or> (\<exists>cx cy r st. orig = Circle cx cy r st)
      \<or> (\<exists>cx cy w h st cr. orig = Diamond cx cy w h st cr)"
  shows "\<exists>s. applyResize measureText tool pointerX pointerY = Resized s
           \<and> 6 \<le> bbW (bbox s) \<and> 6 \<le> bbH (bbox s)"
proof -
  from variant consider
      (rect) x y w h st where "orig = Rect x y w h st"
    | (circle) cx cy r st where "orig = Circle cx cy r st"
    | (diamond) cx cy w h st cr where "orig = Diamond cx cy w h st cr"
    by blast
  then show ?thesis
  proof cases
    case rect
    with active show ?thesis
      by (cases start) (simp add: applyResize_def Let_def)
  next
    case circle
    have r: "\<And>a b :: real. 6 \<le> 2 * \<bar>max 3 (max (max a b) 6 / 2)\<bar>"
      by (simp add: max_def)
    from circle active show ?thesis
      by (cases start) (simp add: applyResize_def Let_def r del: max.absorb1 max.absorb2 max.absorb3 max.absorb4)
  next
    case diamond
    with active show ?thesis
      by (cases start) (simp add: applyResize_def Let_def)
  qed
qed

theorem resize_min_size_witness:
  "applyResize (\<lambda>fs ff t. 0) (startResize ''42'' (Rect 0 0 10 10 plain) 100 100 Hnw) 190 200
     = Resized (Rect 4 4 6 6 plain)
   \<and> 6 \<le> bbW (bbox (Rect 4 4 6 6 plain)) \<and> 6 \<le> bbH (bbox (Rect 4 4 6 6 plain))"
proof -
  let ?tool = "startResize ''42'' (Rect 0 0 10 10 plain) 100 100 Hnw"
  have a: "activeHandle ?tool = Some Hnw" "startPointer ?tool = Some (100, 100)"
    "originalShape ?tool = Some (Rect 0 0 10 10 plain)"
    by (simp_all add: startResize_def)
  have v: "(\<exists>x y w h st. Rect 0 0 10 10 plain = Rect x y w h st)
      \<or> (\<exists>cx cy r st. Rect 0 0 10 10 plain = Circle cx cy r st)
      \<or> (\<exists>cx cy w h st cr. Rect 0 0 10 10 plain = Diamond cx cy w h st cr)"
    by simp
  have e: "applyResize (\<lambda>fs ff t. 0) ?tool 190 200 = Resized (Rect 4 4 6 6 plain)"
    by (simp add: applyResize_def startResize_def computeNewBBoxFromHandle_def)
  from resize_min_size[OF a v, of "\<lambda>fs ff t. 0" 190 200] e show ?thesis by simp
qed

section \<open>Properties of freehand simplification\<close>

text \<open>
  The index found by the scan is an interior one whenever the largest deviation is
  positive, so both recursive calls are on shorter sequences.
\<close>

lemma farthest_fold:
  fixes f :: "nat \<Rightarrow> real"
  shows "fold (\<lambda>i (dmax, index). let d = f i in if d > dmax then (d, i) else (dmax, index)) is init = r
     \<Longrightarrow> r = init \<or> (snd r \<in> set is \<and> fst r > fst init)"
proof (induction "is" arbitrary: init)
  case Nil
  then show ?case by simp
next
  case (Cons i rest)
  obtain dmax index where init: "init = (dmax, index)" by (cases init)
  show ?case
  proof (cases "f i > dmax")
    case True
    with Cons.prems init
    have "fold (\<lambda>i (dmax, index). let d = f i in if d > dmax then (d, i) else (dmax, index)) rest (f i, i) = r"
      by (simp add: Let_def)
    from Cons.IH[OF this] True init show ?thesis by auto
  next
    case False
    with Cons.prems init
    have "fold (\<lambda>i (dmax, index). let d = f i in if d > dmax then (d, i) else (dmax, index)) rest init = r"
      by (simp add: Let_def)
    from Cons.IH[OF this] show ?thesis by auto
  qed
qed

lemma farthest_index:
  assumes "0 < fst (farthest ps)"
  shows "1 \<le> snd (farthest ps) \<and> snd (farthest ps) < length ps - 1"
proof -
  have "farthest ps = (0, 0) \<or> (snd (farthest ps) \<in> set [1 ..< length ps - 1] \<and> fst (farthest ps) > fst (0::real, 0::nat))"
    unfolding farthest_def by (rule farthest_fold) (rule refl)
  with assms show ?thesis by auto
qed

lemma simplifyRDP_endpoints:
  assumes "0 \<le> epsilon"
  shows "ps \<noteq> [] \<Longrightarrow>
         \<exists>r. simplifyRDP ps epsilon = Some r \<and> r \<noteq> [] \<and> hd r = hd ps \<and> last r = last ps
              \<and> (2 \<le> length ps \<longrightarrow> 2 \<le> length r)"
proof (induction "length ps" arbitrary: ps rule: less_induct)
  case less
  show ?case
  proof (cases "length ps < 3")
    case True
    then have "simplifyRDP ps epsilon = Some ps" by (subst simplifyRDP.simps) simp
    with less.prems show ?thesis by simp
  next
    case long: False
    show ?thesis
    proof (cases "fst (farthest ps) > epsilon")
      case False
      with long have "simplifyRDP ps epsilon = Some [ps ! 0, ps ! (length ps - 1)]"
        by (subst simplifyRDP.simps) simp
      with less.prems show ?thesis by (simp add: hd_conv_nth last_conv_nth)
    next
      case True
      let ?k = "snd (farthest ps)"
      from True assms have "0 < fst (farthest ps)" by simp
      from farthest_index[OF this] have k: "1 \<le> ?k" "?k < length ps - 1" by auto
      let ?a = "take (?k + 1) ps" and ?b = "drop ?k ps"
      have la: "length ?a = ?k + 1" and lb: "length ?b = length ps - ?k" using k by auto
      have "length ?a < length ps" "?a \<noteq> []" "2 \<le> length ?a" using k la by auto
      from less.hyps[OF this(1,2)] this(3)
      obtain r1 where r1: "simplifyRDP ?a epsilon = Some r1" "r1 \<noteq> []" "hd r1 = hd ?a"
        "last r1 = last ?a" "2 \<le> length r1"
        by blast
      have "length ?b < length ps" "?b \<noteq> []" "2 \<le> length ?b" using k lb by auto
      from less.hyps[OF this(1,2)] this(3)
      obtain r2 where r2: "simplifyRDP ?b epsilon = Some r2" "r2 \<noteq> []" "hd r2 = hd ?b"
        "last r2 = last ?b" "2 \<le> length r2"
        by blast
      from long True r1(1) r2(1)
      have res: "simplifyRDP ps epsilon = Some (butlast r1 @ r2)"
        by (subst simplifyRDP.simps) simp
      from r1(2,5) have bl: "butlast r1 \<noteq> []" by (cases r1; cases "tl r1") auto
      then have "hd (butlast r1 @ r2) = hd r1" using r1(2) by (cases r1) (auto split: if_splits)
      moreover have "hd ?a = hd ps" using less.prems by (simp add: hd_take)
      moreover have "last (butlast r1 @ r2) = last r2" using r2(2) by simp
      moreover have "last ?b = last ps" using k by simp
      moreover have "2 \<le> length (butlast r1 @ r2)" using r2(5) by simp
      ultimately show ?thesis using res r1 r2 by simp
    qed
  qed
qed

lemma hypot_axis: "hypot a 0 = \<bar>a\<bar>"
  by (simp add: hypot_def)

lemma farthest_example: "farthest [(0, 0), (3, 4), (6, 0)] = (4, 1)"
  by (simp add: farthest_def lineDistance_def hypot_axis Let_def)

lemma farthest_flat: "farthest [(0, 0), (3, 1), (6, 0)] = (1, 1)"
  by (simp add: farthest_def lineDistance_def hypot_axis Let_def)

lemma simplifyRDP_example:
  "simplifyRDP [(0, 0), (3, 4), (6, 0)] 1.5 = Some [(0, 0), (3, 4), (6, 0)]
   \<and> simplifyRDP [(0, 0), (3, 1), (6, 0)] 1.5 = Some [(0, 0), (6, 0)]"
proof -
  have two: "\<And>a b e. simplifyRDP [a, b] e = Some [a, b]"
    by (subst simplifyRDP.simps) simp
  have "simplifyRDP [(0, 0), (3, 4), (6, 0)] 1.5 = Some [(0, 0), (3, 4), (6, 0)]"
    by (subst simplifyRDP.simps) (simp add: farthest_example two)
  moreover have "simplifyRDP [(0, 0), (3, 1), (6, 0)] 1.5 = Some [(0, 0), (6, 0)]"
    by (subst simplifyRDP.simps) (simp add: farthest_flat)
  ultimately show ?thesis by simp
qed

lemma simplifyRDP_empty: "simplifyRDP [] epsilon = Some []"
  by (subst simplifyRDP.simps) simp

text \<open>
  C7. For every point sequence and every tolerance that is not negative, the
  Ramer-Douglas-Peucker simplification returns; the sequence it returns is empty only for
  the empty input, and otherwise its first point is the first point of the input and its
  last point is the last point of the input.
\<close>

theorem simplifyRDP_keeps_endpoints:
  assumes "0 \<le> epsilon"
  shows "\<exists>r. simplifyRDP pts epsilon = Some r \<and> (r = [] \<longleftrightarrow> pts = [])
           \<and> (pts \<noteq> [] \<longrightarrow> hd r = hd pts \<and> last r = last pts)"
proof (cases "pts = []")
  case True
  then show ?thesis by (simp add: simplifyRDP_empty)
next
  case False
  from simplifyRDP_endpoints[OF assms False] False show ?thesis by blast
qed

theorem simplifyRDP_keeps_endpoints_witness:
  "(0::real) \<le> 1.5
   \<and> (\<exists>r. simplifyRDP [(0, 0), (3, 4), (6, 0)] 1.5 = Some r \<and> r \<noteq> [] \<and> hd r = (0, 0) \<and> last r = (6, 0))"
proof -
  have e: "(0::real) \<le> 1.5" by simp
  from simplifyRDP_keeps_endpoints[OF e, of "[(0, 0), (3, 4), (6, 0)]"] e show ?thesis by simp
qed

text \<open>
  So the path a pencil stroke keeps after each accepted point starts at the first recorded
  point and ends at the point just added.
\<close>

lemma addPoint_keeps_endpoints:
  assumes "points pen = [] \<or> pointDistance (last (points pen)) (x, y) > 0.5"
  shows "\<exists>pen'. addPoint x y pen = Some pen' \<and> points pen' = points pen @ [(x, y)]
           \<and> hd (smoothed pen') = hd (points pen') \<and> last (smoothed pen') = (x, y)"
proof -
  let ?pts = "points pen @ [(x, y)]"
  have e: "(0::real) \<le> 1.5" by simp
  from simplifyRDP_endpoints[OF e, of ?pts]
  obtain r where r: "simplifyRDP ?pts 1.5 = Some r" "hd r = hd ?pts" "last r = last ?pts"
    by auto
  show ?thesis
  proof (cases "length ?pts < 2")
    case True
    then have "points pen = []" by (cases "points pen") auto
    with assms show ?thesis by (simp add: addPoint_def updateSmoothed_def Let_def)
  next
    case False
    with assms r show ?thesis by (auto simp: addPoint_def updateSmoothed_def Let_def)
  qed
qed

section \<open>Properties of the relay\<close>

lemma relay_reorder_no_effect:
  "msgType m = Some ''reorder'' \<Longrightarrow>
     relayMessage db w uid m users = (users, []) \<and> relayMessageAlt textShape parseShape db w uid m users = (users, [])"
  by (simp add: relayMessage_def relayMessageAlt_def)

text \<open>
  C1. A \<open>reorder\<close> message should be broadcast to every connection joined to its room.
  Neither version of the relay has a branch for the type \<open>reorder\<close>: the message falls
  through to the unknown-type warning. With two connections joined to room 7, a reorder
  for that room produces no send (and no persistence call).
\<close>

theorem relay_drops_reorder:
  "relayMessage (Saved 0) 1 ''alice''
      \<lparr>msgType = Some ''reorder'', roomId = ''7'', msgId = JUndefined, msgTempId = None,
       msgShape = None, msgText = None, msgOrder = Some [''43'', ''42'']\<rparr>
      [\<lparr>ws = 1, rooms = [''7''], userId = ''alice''\<rparr>, \<lparr>ws = 2, rooms = [''7''], userId = ''bob''\<rparr>]
     = ([\<lparr>ws = 1, rooms = [''7''], userId = ''alice''\<rparr>, \<lparr>ws = 2, rooms = [''7''], userId = ''bob''\<rparr>], [])
   \<and> relayMessageAlt (\<lambda>t. None) Some (Saved 0) 1 ''alice''
      \<lparr>msgType = Some ''reorder'', roomId = ''7'', msgId = JUndefined, msgTempId = None,
       msgShape = None, msgText = None, msgOrder = Some [''43'', ''42'']\<rparr>
      [\<lparr>ws = 1, rooms = [''7''], userId = ''alice''\<rparr>, \<lparr>ws = 2, rooms = [''7''], userId = ''bob''\<rparr>]
     = ([\<lparr>ws = 1, rooms = [''7''], userId = ''alice''\<rparr>, \<lparr>ws = 2, rooms = [''7''], userId = ''bob''\<rparr>], [])"
  by (simp add: relayMessage_def relayMessageAlt_def)

text \<open>
  White space beyond ASCII is trimmed and split on as well: a no-break space before and a
  line separator after the digits leave a numeric id.
\<close>

lemma no_break_space_is_trimmed:
  "\<not> numberIsNaN (JString ([CHR 0xC2, CHR 0xA0] @ ''42'' @ [CHR 0xE2, CHR 0x80, CHR 0xA8]))
   \<and> splitWs (''a'' @ [CHR 0xC2, CHR 0xA0] @ '' b'') = [''a'', ''b'']"
  by (simp add: numericString_def trimSpaces_def splitWs_def spaceLen_def spaceCodes_def
        unsignedDecimal_def isDigit_def)

lemma pending_not_numeric: "numberIsNaN (JString ''pending-1700000000000'')"
  by (simp add: numericString_def trimSpaces_def spaceLen_def spaceCodes_def unsignedDecimal_def isDigit_def)

text \<open>
  C2 as stated: whether or not the id of a \<open>delete\<close> is a durable one, the delete is
  broadcast to the room. In index.ts the branch leaves the \<open>switch\<close> as soon as the id is
  not numeric, with a warning, so the delete of a pending id is sent to nobody, although
  two connections are joined to the room; the other version of the relay skips only the
  persistence call and still sends the delete to both.
\<close>

theorem relay_delete_pending_not_broadcast:
  "numberIsNaN (JString ''pending-1700000000000'')
   \<and> relayMessage (Saved 0) 1 ''alice''
      \<lparr>msgType = Some ''delete'', roomId = ''7'', msgId = JString ''pending-1700000000000'',
       msgTempId = None, msgShape = None, msgText = None, msgOrder = None\<rparr>
      [\<lparr>ws = 1, rooms = [''7''], userId = ''alice''\<rparr>, \<lparr>ws = 2, rooms = [''7''], userId = ''bob''\<rparr>]
     = ([\<lparr>ws = 1, rooms = [''7''], userId = ''alice''\<rparr>, \<lparr>ws = 2, rooms = [''7''], userId = ''bob''\<rparr>], [])
   \<and> relayMessageAlt (\<lambda>t. None) Some (Saved 0) 1 ''alice''
      \<lparr>msgType = Some ''delete'', roomId = ''7'', msgId = JString ''pending-1700000000000'',
       msgTempId = None, msgShape = None, msgText = None, msgOrder = None\<rparr>
      [\<lparr>ws = 1, rooms = [''7''], userId = ''alice''\<rparr>, \<lparr>ws = 2, rooms = [''7''], userId = ''bob''\<rparr>]
     = ([\<lparr>ws = 1, rooms = [''7''], userId = ''alice''\<rparr>, \<lparr>ws = 2, rooms = [''7''], userId = ''bob''\<rparr>],
        [Send 1 (DeletePayload (JString ''pending-1700000000000'') ''7''),
         Send 2 (DeletePayload (JString ''pending-1700000000000'') ''7'')])"
  using pending_not_numeric
  by (simp add: relayMessage_def relayMessageAlt_def broadcastToRoom_def)

lemma broadcast_members:
  "set (broadcastToRoom users room p) = {Send (ws u) p | u. u \<in> set users \<and> room \<in> set (rooms u)}"
  by (auto simp: broadcastToRoom_def)

lemma nan_not_number: "numberIsNaN v \<Longrightarrow> \<not> isNumberType v"
  by (cases v) auto

text \<open>
  C2, amended: for every inbound \<open>delete\<close> message, whatever the outcome of the
  persistence call, both versions of the relay issue the persistence delete call exactly
  when the carried id is numeric (\<open>Number(id)\<close> is not \<open>NaN\<close>) and leave the membership
  as it is. index.ts then sends the delete event to every connection joined to the room
  when the id is numeric, and does nothing at all when it is not; the other version sends
  the delete event to every connection joined to the room in both cases.
\<close>

theorem relay_delete_effects:
  assumes "msgType m = Some ''delete''"
  shows "fst (relayMessage db w uid m users) = users
     \<and> (DbDelete (msgId m) \<in> set (snd (relayMessage db w uid m users)) \<longleftrightarrow> \<not> numberIsNaN (msgId m))
     \<and> (numberIsNaN (msgId m) \<longrightarrow> snd (relayMessage db w uid m users) = [])
     \<and> (\<not> numberIsNaN (msgId m) \<longrightarrow>
          (\<forall>u\<in>set users. roomId m \<in> set (rooms u) \<longrightarrow>
             Send (ws u) (DeletePayload (msgId m) (roomId m)) \<in> set (snd (relayMessage db w uid m users))))
     \<and> fst (relayMessageAlt textShape parseShape db w uid m users) = users
     \<and> (DbDelete (msgId m) \<in> set (snd (relayMessageAlt textShape parseShape db w uid m users)) \<longleftrightarrow> \<not> numberIsNaN (msgId m))
     \<and> (\<forall>u\<in>set users. roomId m \<in> set (rooms u) \<longrightarrow>
             Send (ws u) (DeletePayload (msgId m) (roomId m)) \<in> set (snd (relayMessageAlt textShape parseShape db w uid m users)))"
  using assms nan_not_number[of "msgId m"]
  by (auto simp: relayMessage_def relayMessageAlt_def broadcast_members)

theorem relay_delete_effects_witness:
  "\<not> numberIsNaN (JString ''42'')
   \<and> DbDelete (JString ''42'') \<in> set (snd (relayMessage Failed 1 ''alice''
        \<lparr>msgType = Some ''delete'', roomId = ''7'', msgId = JString ''42'',
         msgTempId = None, msgShape = (None :: unit option), msgText = None, msgOrder = None\<rparr>
        [\<lparr>ws = 1, rooms = [''7''], userId = ''alice''\<rparr>, \<lparr>ws = 2, rooms = [''3'', ''7''], userId = ''bob''\<rparr>]))
   \<and> Send 2 (DeletePayload (JString ''42'') ''7'') \<in> set (snd (relayMessage Failed 1 ''alice''
        \<lparr>msgType = Some ''delete'', roomId = ''7'', msgId = JString ''42'',
         msgTempId = None, msgShape = (None :: unit option), msgText = None, msgOrder = None\<rparr>
        [\<lparr>ws = 1, rooms = [''7''], userId = ''alice''\<rparr>, \<lparr>ws = 2, rooms = [''3'', ''7''], userId = ''bob''\<rparr>]))"
proof -
  let ?m = "\<lparr>msgType = Some ''delete'', roomId = ''7'', msgId = JString ''42'',
         msgTempId = None, msgShape = (None :: unit option), msgText = None, msgOrder = None\<rparr>"
  let ?users = "[\<lparr>ws = 1, rooms = [''7''], userId = ''alice''\<rparr>, \<lparr>ws = 2, rooms = [''3'', ''7''], userId = ''bob''\<rparr>]"
  have t: "msgType ?m = Some ''delete''" by simp
  have n: "\<not> numberIsNaN (JString ''42'')"
    by (simp add: numericString_def trimSpaces_def spaceLen_def spaceCodes_def unsignedDecimal_def isDigit_def)
  from relay_delete_effects[OF t, of Failed 1 "''alice''" ?users] n
  have "DbDelete (JString ''42'') \<in> set (snd (relayMessage Failed 1 ''alice'' ?m ?users))
     \<and> (\<forall>u\<in>set ?users. ''7'' \<in> set (rooms u) \<longrightarrow>
             Send (ws u) (DeletePayload (JString ''42'') ''7'')
               \<in> set (snd (relayMessage Failed 1 ''alice'' ?m ?users)))"
    by simp
  then show ?thesis using n by simp
qed

end
